theory Spec2Isabelle
  imports Main
begin

section \<open>The dichroic-signal stream of \<^verbatim>\<open>id4_common/callbacks/dichro_stream.py\<close>\<close>

text \<open>
  The module defines a sink device (\<^verbatim>\<open>DichroDevice\<close>), a settings holder
  (\<^verbatim>\<open>Settings\<close>) and a document callback (\<^verbatim>\<open>DichroStream\<close>) that groups the
  events of the primary stream into windows, reduces every window to an XAS and an XMCD
  value, publishes them on the device and re-emits them as a new event.

  Python objects are records, attribute assignment is record update, a dictionary is a
  map or an association list in insertion order, and every exception is a value of
  \<open>error\<close>.  A Python exception does not undo the assignments made before it, so a method
  that can raise returns its outcome together with the state it leaves behind.
\<close>

subsection \<open>Exceptions\<close>

datatype error =
    IndexError
  | Exception string
  | KeyError string
  | AttributeError
  | UnboundLocalError string
  | ValueError

subsection \<open>numpy\<close>

text \<open>
  The readings are numpy scalars, and \<^verbatim>\<open>mean\<close>, \<^verbatim>\<open>log\<close>, \<^verbatim>\<open>/\<close>, \<^verbatim>\<open>*\<close> and
  \<^verbatim>\<open>nan\<close> are numpy's.  None of them is code of this module, so the model takes them as
  a parameter: a record of operations over a type \<open>'v\<close> of values.  Nothing is assumed
  about them; every statement below holds for whatever these operations compute.
  \<open>from_int\<close> is the conversion of a Python integer (the entries of the pattern, the
  constants \<^verbatim>\<open>0\<close> and \<^verbatim>\<open>2\<close>) that numpy applies before it computes.
\<close>

record 'v numpy =
  mean :: "'v list \<Rightarrow> 'v"
  log :: "'v \<Rightarrow> 'v"
  true_divide :: "'v \<Rightarrow> 'v \<Rightarrow> 'v"
  multiply :: "'v \<Rightarrow> 'v \<Rightarrow> 'v"
  from_int :: "int \<Rightarrow> 'v"
  nan :: "'v"

text \<open>
  \<^verbatim>\<open>a / b\<close> on two arrays built from the same window: both have the window's length,
  and the division is element by element.
\<close>

definition array_divide :: "'v numpy \<Rightarrow> 'v list \<Rightarrow> 'v list \<Rightarrow> 'v list" where
  "array_divide np xs ys = map (\<lambda>(x, y). true_divide np x y) (zip xs ys)"

text \<open>
  \<^verbatim>\<open>a * b\<close> on two one-dimensional arrays: element by element when the lengths agree,
  broadcast when one of them has length one, \<^verbatim>\<open>ValueError\<close> otherwise.
\<close>

definition array_multiply :: "'v numpy \<Rightarrow> 'v list \<Rightarrow> 'v list \<Rightarrow> error + 'v list" where
  "array_multiply np xs ys =
     (if length xs = length ys then Inr (map (\<lambda>(x, y). multiply np x y) (zip xs ys))
      else if length ys = 1 then Inr (map (\<lambda>x. multiply np x (hd ys)) xs)
      else if length xs = 1 then Inr (map (\<lambda>y. multiply np (hd xs) y) ys)
      else Inl ValueError)"

subsection \<open>Documents\<close>

type_synonym channel = string

text \<open>
  An event document, \<^verbatim>\<open>{"descriptor": id, "data": {channel: value}}\<close>.  The document
  that \<^verbatim>\<open>process_xmcd\<close> returns has the same two keys.
\<close>

record 'v event_doc =
  descriptor :: string
  data :: "channel \<rightharpoonup> 'v"

text \<open>
  A descriptor document: its stream name (\<^verbatim>\<open>descriptor.get("name")\<close>, which may be
  missing) and the keys of its \<^verbatim>\<open>"data_keys"\<close> dictionary.
\<close>

record descriptor_doc =
  desc_name :: "string option"
  desc_data_keys :: "channel list"

text \<open>The documents that the stream emits to its own subscribers.\<close>

datatype 'v document =
    Start_doc "channel list"
  | Event_doc "'v event_doc"
  | Stop_doc

subsection \<open>\<^verbatim>\<open>Settings\<close>\<close>

record settings =
  positioner1 :: "channel option"
  positioner2 :: "channel option"
  monitor :: "channel option"
  detector :: "channel option"
  transmission :: bool
  pattern :: "int list"

definition Settings :: settings where
  "Settings = \<lparr>positioner1 = Some ''energy'', positioner2 = None,
     monitor = Some ''4idhI0'', detector = Some ''4idhI1'',
     transmission = True, pattern = [1, - 1, - 1, 1]\<rparr>"

text \<open>
  \<^verbatim>\<open>get_keys\<close>: the dictionary of the four roles whose attribute is not \<^verbatim>\<open>None\<close>, in
  the order of the list that the comprehension runs over.
\<close>

definition get_keys :: "settings \<Rightarrow> (string \<times> channel) list" where
  "get_keys s =
     List.map_filter (\<lambda>(item, v). map_option (Pair item) v)
       [(''positioner1'', positioner1 s), (''positioner2'', positioner2 s),
        (''monitor'', monitor s), (''detector'', detector s)]"

subsection \<open>\<^verbatim>\<open>DichroDevice\<close>\<close>

type_synonym callback = string

text \<open>
  The device has four signals, \<^verbatim>\<open>positioner1\<close>, \<^verbatim>\<open>positioner2\<close>, \<^verbatim>\<open>xas\<close> and
  \<^verbatim>\<open>xmcd\<close>, kept here as one tuple in that order.  The registry of callbacks, the cache of
  the last notification and the calls of the callbacks belong to ophyd's base classes.
  \<open>notified\<close> is the trace of the callbacks run so far, each with the signal values it
  could read when it ran.
\<close>

record 'v dichro_device =
  signals :: "'v \<times> 'v \<times> 'v \<times> 'v"
  callbacks :: "(string \<times> callback) list"
  args_cache :: "string list"
  notified :: "(callback \<times> ('v \<times> 'v \<times> 'v \<times> 'v)) list"

definition SUB_ACQ_DONE :: string where
  "SUB_ACQ_DONE = ''acq_done''"

text \<open>
  Modelled from the spec: the observer registry of the base class \<^verbatim>\<open>ophyd.Device\<close>
  (\<^verbatim>\<open>subscribe\<close>, \<^verbatim>\<open>put\<close> and \<^verbatim>\<open>_run_subs\<close>), which is not part of this
  repository.  The sink is ``a single published mutable value with an observer-registration
  interface''; publishing ``synchronously invokes all registered observers in registration
  order''.  A callback is registered under an event type; with \<^verbatim>\<open>run=True\<close> it is called
  at once when that event type has fired before.
\<close>

definition base_subscribe ::
  "'v dichro_device \<Rightarrow> callback \<Rightarrow> string \<Rightarrow> bool \<Rightarrow> 'v dichro_device" where
  "base_subscribe dev cb event_type run =
     (let dev1 = dev\<lparr>callbacks := callbacks dev @ [(event_type, cb)]\<rparr>
      in if run \<and> event_type \<in> set (args_cache dev)
         then dev1\<lparr>notified := notified dev1 @ [(cb, signals dev1)]\<rparr>
         else dev1)"

text \<open>
  Modelled from the spec: \<^verbatim>\<open>Device.put\<close> of ophyd stores the tuple in the four
  signals (``a single published mutable value'').
\<close>

definition base_put :: "'v dichro_device \<Rightarrow> 'v \<times> 'v \<times> 'v \<times> 'v \<Rightarrow> 'v dichro_device" where
  "base_put dev dev_t = dev\<lparr>signals := dev_t\<rparr>"

text \<open>
  Modelled from the spec: the observers registered under an event type, ``in registration
  order''.
\<close>

definition subscribers :: "'v dichro_device \<Rightarrow> string \<Rightarrow> callback list" where
  "subscribers dev sub_type = map snd (filter (\<lambda>(t, cb). t = sub_type) (callbacks dev))"

text \<open>
  Modelled from the spec: \<^verbatim>\<open>_run_subs\<close> of ophyd ``synchronously invokes all registered
  observers in registration order'', and remembers that the event type has fired.
\<close>

definition run_subs :: "'v dichro_device \<Rightarrow> string \<Rightarrow> 'v dichro_device" where
  "run_subs dev sub_type =
     dev\<lparr>args_cache := List.insert sub_type (args_cache dev),
         notified := notified dev @ map (\<lambda>cb. (cb, signals dev)) (subscribers dev sub_type)\<rparr>"

text \<open>
  \<^verbatim>\<open>DichroDevice.subscribe\<close> passes \<^verbatim>\<open>"acq_done"\<close> to the base class whatever the
  caller gave as \<^verbatim>\<open>event_type\<close>; \<^verbatim>\<open>DichroDevice.put\<close> stores the tuple and runs the
  \<^verbatim>\<open>SUB_ACQ_DONE\<close> subscriptions.
\<close>

definition subscribe ::
  "'v dichro_device \<Rightarrow> callback \<Rightarrow> string option \<Rightarrow> bool \<Rightarrow> 'v dichro_device" where
  "subscribe dev cb event_type run = base_subscribe dev cb ''acq_done'' run"

definition put :: "'v dichro_device \<Rightarrow> 'v \<times> 'v \<times> 'v \<times> 'v \<Rightarrow> 'v dichro_device" where
  "put dev dev_t = run_subs (base_put dev dev_t) SUB_ACQ_DONE"

text \<open>The module-level device \<^verbatim>\<open>dichro\<close>: every signal is created with value 0.\<close>

definition dichro_device :: "'v numpy \<Rightarrow> 'v dichro_device" where
  "dichro_device np =
     \<lparr>signals = (from_int np 0, from_int np 0, from_int np 0, from_int np 0),
      callbacks = [], args_cache = [], notified = []\<rparr>"

subsection \<open>\<^verbatim>\<open>DichroStream\<close>\<close>

text \<open>
  Modelled from the spec: the \<^verbatim>\<open>partition\<close> node of the streamz library, which is not
  part of this repository.  It has a window size and a buffer: an incoming event is
  appended to the buffer, and ``if buffer length reaches \<open>window_size\<close>'' the buffered
  window is handed on and the buffer is cleared.
\<close>

record 'v partition =
  pn :: nat
  buffer :: "'v event_doc list"

text \<open>
  The state of the callback and of what it writes to.  \<open>stream_n\<close> is the attribute
  \<^verbatim>\<open>self.n\<close>, \<open>trigger\<close> is \<^verbatim>\<open>self._trigger\<close>.  The attributes \<^verbatim>\<open>in_node\<close>,
  \<^verbatim>\<open>processor\<close> and \<^verbatim>\<open>out_node\<close> name the three nodes of one pipeline (source,
  partition, map); \<^verbatim>\<open>start\<close> assigns the three together and \<^verbatim>\<open>stop\<close> clears the three
  together, and only the partition node has a state, so the model keeps the pipeline in
  the one field \<open>in_node\<close>.  \<open>raw_descriptors\<close> is the cache of descriptor documents of
  the base class \<^verbatim>\<open>LiveDispatcher\<close>, \<open>emitted\<close> the documents it has passed to its
  subscribers, \<open>dichro\<close> the module-level device and \<open>warnings\<close> the messages given to
  \<^verbatim>\<open>logger.warning\<close>.
\<close>

record 'v dichro_stream =
  stream_n :: nat
  in_node :: "'v partition option"
  data_keys :: "(string \<times> channel) list option"
  settings :: settings
  trigger :: bool
  raw_descriptors :: "string \<rightharpoonup> descriptor_doc"
  dichro :: "'v dichro_device"
  emitted :: "'v document list"
  warnings :: "string list"

text \<open>\<^verbatim>\<open>DichroStream.__init__\<close>, with the module-level device.\<close>

definition init :: "'v numpy \<Rightarrow> 'v dichro_stream" where
  "init np =
     \<lparr>stream_n = 4, in_node = None, data_keys = None, settings = Settings,
      trigger = False, raw_descriptors = Map.empty, dichro = dichro_device np,
      emitted = [], warnings = []\<rparr>"

text \<open>\<^verbatim>\<open>sub in s\<close> on two strings.\<close>

fun is_prefix :: "string \<Rightarrow> string \<Rightarrow> bool" where
  "is_prefix [] s = True"
| "is_prefix (c # cs) [] = False"
| "is_prefix (c # cs) (d # ds) = (c = d \<and> is_prefix cs ds)"

fun str_in :: "string \<Rightarrow> string \<Rightarrow> bool" where
  "str_in sub [] = (sub = [])"
| "str_in sub (c # cs) = (is_prefix sub (c # cs) \<or> str_in sub cs)"

text \<open>\<^verbatim>\<open>[evt["data"][value] for evt in cache]\<close>: a missing key raises.\<close>

fun readings :: "'v event_doc list \<Rightarrow> channel \<Rightarrow> error + 'v list" where
  "readings [] value = Inr []"
| "readings (evt # cache) value =
     (case data evt value of
        None \<Rightarrow> Inl (KeyError value)
      | Some v \<Rightarrow>
          (case readings cache value of
             Inl e \<Rightarrow> Inl e
           | Inr vs \<Rightarrow> Inr (v # vs)))"

text \<open>
  The test that every configured channel is a key of the descriptor.  The descriptor is
  looked up once for every channel, so an unknown descriptor id raises only when there is
  a channel to test.
\<close>

definition keys_in_schema :: "'v dichro_stream \<Rightarrow> string \<Rightarrow> channel list \<Rightarrow> error + bool" where
  "keys_in_schema st desc_id vals =
     (if vals = [] then Inr True
      else case raw_descriptors st desc_id of
             None \<Rightarrow> Inl (KeyError desc_id)
           | Some d \<Rightarrow> Inr (list_all (\<lambda>key. key \<in> set (desc_data_keys d)) vals))"

text \<open>
  One pass of the loop of the matching branch.  The local variables are the dictionary
  \<^verbatim>\<open>processed_evt\<close> and the arrays \<^verbatim>\<open>_mon\<close> and \<^verbatim>\<open>_det\<close>, which are unbound until
  the loop assigns them.
\<close>

type_synonym 'v locals = "(string \<rightharpoonup> 'v) \<times> 'v list option \<times> 'v list option"

definition match_step ::
  "'v numpy \<Rightarrow> 'v event_doc list \<Rightarrow> string \<times> channel \<Rightarrow> 'v locals \<Rightarrow> error + 'v locals" where
  "match_step np cache item loc =
     (case (item, loc) of ((key, value), (processed_evt, mon, det)) \<Rightarrow>
       if str_in ''positioner1'' key then
         (case readings cache value of
            Inl e \<Rightarrow> Inl e
          | Inr vs \<Rightarrow> Inr (processed_evt(value \<mapsto> mean np vs), mon, det))
       else if str_in ''positioner2'' key then
         (case readings cache value of
            Inl e \<Rightarrow> Inl e
          | Inr vs \<Rightarrow> Inr (processed_evt(value \<mapsto> mean np vs), mon, det))
       else if str_in ''monitor'' key then
         (case readings cache value of
            Inl e \<Rightarrow> Inl e
          | Inr vs \<Rightarrow> Inr (processed_evt, Some vs, det))
       else if str_in ''detector'' key then
         (case readings cache value of
            Inl e \<Rightarrow> Inl e
          | Inr vs \<Rightarrow> Inr (processed_evt, mon, Some vs))
       else Inr (processed_evt, mon, det))"

fun match_loop ::
  "'v numpy \<Rightarrow> 'v event_doc list \<Rightarrow> (string \<times> channel) list \<Rightarrow> 'v locals \<Rightarrow> error + 'v locals" where
  "match_loop np cache [] loc = Inr loc"
| "match_loop np cache (item # items) loc =
     (case match_step np cache item loc of
        Inl e \<Rightarrow> Inl e
      | Inr loc' \<Rightarrow> match_loop np cache items loc')"

text \<open>
  \<^verbatim>\<open>log(_mon / _det) if self.settings.transmission else _det / _mon\<close>: the condition is
  evaluated first, then the names of the chosen branch from left to right.
\<close>

definition absorption ::
  "'v numpy \<Rightarrow> bool \<Rightarrow> 'v list option \<Rightarrow> 'v list option \<Rightarrow> error + 'v list" where
  "absorption np transm mon det =
     (if transm then
        (case mon of
           None \<Rightarrow> Inl (UnboundLocalError ''_mon'')
         | Some m \<Rightarrow>
             (case det of
                None \<Rightarrow> Inl (UnboundLocalError ''_det'')
              | Some d \<Rightarrow> Inr (map (log np) (array_divide np m d))))
      else
        (case det of
           None \<Rightarrow> Inl (UnboundLocalError ''_det'')
         | Some d \<Rightarrow>
             (case mon of
                None \<Rightarrow> Inl (UnboundLocalError ''_mon'')
              | Some m \<Rightarrow> Inr (array_divide np d m))))"

text \<open>The matching branch: the loop, then \<^verbatim>\<open>xas\<close> and \<^verbatim>\<open>xmcd\<close>.\<close>

definition match_branch ::
  "'v numpy \<Rightarrow> settings \<Rightarrow> (string \<times> channel) list \<Rightarrow> 'v event_doc list \<Rightarrow>
     error + (string \<rightharpoonup> 'v)" where
  "match_branch np s items cache =
     (case match_loop np cache items (Map.empty, None, None) of
        Inl e \<Rightarrow> Inl e
      | Inr (processed_evt, mon, det) \<Rightarrow>
          (case absorption np (transmission s) mon det of
             Inl e \<Rightarrow> Inl e
           | Inr xas \<Rightarrow>
               (case array_multiply np xas (map (from_int np) (pattern s)) of
                  Inl e \<Rightarrow> Inl e
                | Inr signed \<Rightarrow>
                    Inr (processed_evt
                          (''xas'' \<mapsto> mean np xas,
                           ''xmcd'' \<mapsto> multiply np (mean np signed) (from_int np 2))))))"

text \<open>The other branch: every positioner entry, \<^verbatim>\<open>xas\<close> and \<^verbatim>\<open>xmcd\<close> are set to 0.\<close>

fun degraded_loop ::
  "'v numpy \<Rightarrow> (string \<times> channel) list \<Rightarrow> (string \<rightharpoonup> 'v) \<Rightarrow> (string \<rightharpoonup> 'v)" where
  "degraded_loop np [] processed_evt = processed_evt"
| "degraded_loop np ((key, value) # items) processed_evt =
     degraded_loop np items
       (if str_in ''positioner'' key then processed_evt(value \<mapsto> from_int np 0)
        else processed_evt)"

definition degraded_branch :: "'v numpy \<Rightarrow> (string \<times> channel) list \<Rightarrow> (string \<rightharpoonup> 'v)" where
  "degraded_branch np items =
     (degraded_loop np items Map.empty)(''xas'' \<mapsto> from_int np 0, ''xmcd'' \<mapsto> from_int np 0)"

definition mismatch_warning :: string where
  "mismatch_warning =
     ''The input data keys do not match entries in the database. '' @
     ''Data is being recorded, but the plot will not be '' @
     ''generated.''"

text \<open>
  The tuple for the device: the entry of every positioner that the settings name at this
  moment, \<^verbatim>\<open>nan\<close> for one that is \<^verbatim>\<open>None\<close>, then \<^verbatim>\<open>xas\<close> and \<^verbatim>\<open>xmcd\<close>.
\<close>

definition lookup :: "(string \<rightharpoonup> 'v) \<Rightarrow> string \<Rightarrow> error + 'v" where
  "lookup d k = (case d k of None \<Rightarrow> Inl (KeyError k) | Some v \<Rightarrow> Inr v)"

definition position :: "'v numpy \<Rightarrow> (string \<rightharpoonup> 'v) \<Rightarrow> channel option \<Rightarrow> error + 'v" where
  "position np processed_evt pos =
     (case pos of None \<Rightarrow> Inr (nan np) | Some p \<Rightarrow> lookup processed_evt p)"

definition dichro_out ::
  "'v numpy \<Rightarrow> settings \<Rightarrow> (string \<rightharpoonup> 'v) \<Rightarrow> error + ('v \<times> 'v \<times> 'v \<times> 'v)" where
  "dichro_out np s processed_evt =
     (case position np processed_evt (positioner1 s) of
        Inl e \<Rightarrow> Inl e
      | Inr p1 \<Rightarrow>
          (case position np processed_evt (positioner2 s) of
             Inl e \<Rightarrow> Inl e
           | Inr p2 \<Rightarrow>
               (case lookup processed_evt ''xas'' of
                  Inl e \<Rightarrow> Inl e
                | Inr xas \<Rightarrow>
                    (case lookup processed_evt ''xmcd'' of
                       Inl e \<Rightarrow> Inl e
                     | Inr xmcd \<Rightarrow> Inr (p1, p2, xas, xmcd)))))"

text \<open>
  The end of \<^verbatim>\<open>process_xmcd\<close>: build the tuple, put it on the device, return the new
  event document.
\<close>

definition publish ::
  "'v numpy \<Rightarrow> 'v dichro_stream \<Rightarrow> string \<Rightarrow> (string \<rightharpoonup> 'v) \<Rightarrow>
     (error + 'v event_doc) \<times> 'v dichro_stream" where
  "publish np st desc_id processed_evt =
     (case dichro_out np (settings st) processed_evt of
        Inl e \<Rightarrow> (Inl e, st)
      | Inr out \<Rightarrow>
          (Inr \<lparr>descriptor = desc_id, data = processed_evt\<rparr>,
           st\<lparr>dichro := put (dichro st) out\<rparr>))"

definition process_xmcd ::
  "'v numpy \<Rightarrow> 'v dichro_stream \<Rightarrow> 'v event_doc list \<Rightarrow>
     (error + 'v event_doc) \<times> 'v dichro_stream" where
  "process_xmcd np st cache =
     (case cache of
        [] \<Rightarrow> (Inl IndexError, st)
      | evt0 # _ \<Rightarrow>
          let desc_id = descriptor evt0 in
          if \<not> list_all (\<lambda>evt. desc_id = descriptor evt) cache then
            (Inl (Exception ''The events in this bundle are from differentconfigurations!''), st)
          else
            (case data_keys st of
               None \<Rightarrow> (Inl AttributeError, st)
             | Some items \<Rightarrow>
                 (case keys_in_schema st desc_id (map snd items) of
                    Inl e \<Rightarrow> (Inl e, st)
                  | Inr True \<Rightarrow>
                      (case match_branch np (settings st) items cache of
                         Inl e \<Rightarrow> (Inl e, st)
                       | Inr processed_evt \<Rightarrow> publish np st desc_id processed_evt)
                  | Inr False \<Rightarrow>
                      publish np (st\<lparr>warnings := warnings st @ [mismatch_warning]\<rparr>) desc_id
                        (degraded_branch np items))))"

text \<open>
  Modelled from the spec: \<^verbatim>\<open>LiveDispatcher.process_event\<close> of the bluesky library,
  which is not part of this repository (nor are the \<^verbatim>\<open>start\<close>, \<^verbatim>\<open>stop\<close> and
  \<^verbatim>\<open>descriptor\<close> of that base class, modelled below).  It forwards the derived event
  ``downstream'', to the subscribers of the stream.
\<close>

definition process_event :: "'v dichro_stream \<Rightarrow> 'v event_doc \<Rightarrow> 'v dichro_stream" where
  "process_event st doc = st\<lparr>emitted := emitted st @ [Event_doc doc]\<rparr>"

text \<open>
  Modelled from the spec: \<^verbatim>\<open>LiveDispatcher.start\<close> re-emits the start document, whose
  \<^verbatim>\<open>motors\<close> are ``the list of configured positioner names''.
\<close>

definition base_start :: "'v dichro_stream \<Rightarrow> channel list \<Rightarrow> 'v dichro_stream" where
  "base_start st motors = st\<lparr>emitted := emitted st @ [Start_doc motors]\<rparr>"

text \<open>
  Modelled from the spec: \<^verbatim>\<open>LiveDispatcher.stop\<close> re-emits the stop document and
  forgets the descriptors of the run.
\<close>

definition base_stop :: "'v dichro_stream \<Rightarrow> 'v dichro_stream" where
  "base_stop st = st\<lparr>emitted := emitted st @ [Stop_doc], raw_descriptors := Map.empty\<rparr>"

text \<open>
  Modelled from the spec: \<^verbatim>\<open>LiveDispatcher.descriptor\<close> keeps every raw descriptor by
  its id (the ``descriptor'' that ties ``a raw event to the specific channel schema it was
  recorded under'').
\<close>

definition receive_descriptor ::
  "'v dichro_stream \<Rightarrow> string \<Rightarrow> descriptor_doc \<Rightarrow> 'v dichro_stream" where
  "receive_descriptor st uid doc = st\<lparr>raw_descriptors := (raw_descriptors st)(uid \<mapsto> doc)\<rparr>"

text \<open>
  \<^verbatim>\<open>DichroStream.start\<close>: a new pipeline with an empty buffer and the window size
  \<^verbatim>\<open>len(self.settings.pattern)\<close>, the channel map of the settings, and the start
  document with the configured positioners as its motors.
\<close>

definition start :: "'v dichro_stream \<Rightarrow> 'v dichro_stream" where
  "start st =
     (let k = length (pattern (settings st));
          st1 = st\<lparr>stream_n := k, in_node := Some \<lparr>pn = k, buffer = []\<rparr>,
                   data_keys := Some (get_keys (settings st))\<rparr>;
          motors = List.map_filter id [positioner1 (settings st), positioner2 (settings st)]
      in base_start st1 motors)"

text \<open>
  Modelled from the spec: the pipeline of the streamz library at work, which is not part
  of this repository.  \<^verbatim>\<open>in_node.emit(doc)\<close> reaches the partition node, which
  appends the event; a full buffer is taken out (the buffer is empty from then on), mapped
  through \<^verbatim>\<open>process_xmcd\<close> and given to \<^verbatim>\<open>process_event\<close>.  An exception of
  \<^verbatim>\<open>process_xmcd\<close> leaves through \<^verbatim>\<open>emit\<close>.
\<close>

definition emit ::
  "'v numpy \<Rightarrow> 'v dichro_stream \<Rightarrow> 'v event_doc \<Rightarrow> error option \<times> 'v dichro_stream" where
  "emit np st doc =
     (case in_node st of
        None \<Rightarrow> (Some AttributeError, st)
      | Some node \<Rightarrow>
          let buf = buffer node @ [doc] in
          if length buf = pn node then
            (case process_xmcd np (st\<lparr>in_node := Some (node\<lparr>buffer := []\<rparr>)\<rparr>) buf of
               (Inl e, st') \<Rightarrow> (Some e, st')
             | (Inr out, st') \<Rightarrow> (None, process_event st' out))
          else (None, st\<lparr>in_node := Some (node\<lparr>buffer := buf\<rparr>)\<rparr>))"

text \<open>\<^verbatim>\<open>DichroStream.event\<close>.\<close>

definition event ::
  "'v numpy \<Rightarrow> 'v dichro_stream \<Rightarrow> 'v event_doc \<Rightarrow> error option \<times> 'v dichro_stream" where
  "event np st doc =
     (case raw_descriptors st (descriptor doc) of
        None \<Rightarrow> (Some (KeyError (descriptor doc)), st)
      | Some d \<Rightarrow>
          if desc_name d = Some ''primary'' then emit np st doc else (None, st))"

text \<open>\<^verbatim>\<open>DichroStream.stop\<close>.\<close>

definition stop :: "'v dichro_stream \<Rightarrow> 'v dichro_stream" where
  "stop st =
     base_stop
       (st\<lparr>in_node := None, data_keys := None,
           settings := (settings st)\<lparr>positioner1 := None, positioner2 := None\<rparr>,
           trigger := False\<rparr>)"

subsection \<open>Runs\<close>

text \<open>
  The events of a run, delivered one after the other.  The outcome of every call is kept;
  an exception of one call does not end the delivery (the state it leaves behind is the
  state the next call finds).
\<close>

fun run_events ::
  "'v numpy \<Rightarrow> 'v dichro_stream \<Rightarrow> 'v event_doc list \<Rightarrow> error option list \<times> 'v dichro_stream" where
  "run_events np st [] = ([], st)"
| "run_events np st (doc # docs) =
     (case event np st doc of
        (r, st1) \<Rightarrow> (case run_events np st1 docs of (rs, st2) \<Rightarrow> (r # rs, st2)))"

text \<open>
  The windows of the specification: contiguous groups of \<open>k\<close> events that do not
  overlap, in the order of arrival; what is left at the end, fewer than \<open>k\<close> events,
  is no window.
\<close>

function chunks :: "nat \<Rightarrow> 'a list \<Rightarrow> 'a list list" where
  "chunks k xs = (if k = 0 \<or> length xs < k then [] else take k xs # chunks k (drop k xs))"
  by pat_completeness auto
termination
  by (relation "measure (\<lambda>(k, xs). length xs)") auto

declare chunks.simps [simp del]

text \<open>The events after the last window: what is still in the buffer when the run ends.\<close>

definition trailing :: "nat \<Rightarrow> 'a list \<Rightarrow> 'a list" where
  "trailing k xs = drop (k * (length xs div k)) xs"

text \<open>What \<^verbatim>\<open>process_xmcd\<close> returns or raises for a window.\<close>

definition reduce :: "'v numpy \<Rightarrow> 'v dichro_stream \<Rightarrow> 'v event_doc list \<Rightarrow> error + 'v event_doc" where
  "reduce np st cache = fst (process_xmcd np st cache)"

fun returned :: "(error + 'a) list \<Rightarrow> 'a list" where
  "returned [] = []"
| "returned (Inl e # rs) = returned rs"
| "returned (Inr x # rs) = x # returned rs"

fun raised :: "(error + 'a) list \<Rightarrow> error list" where
  "raised [] = []"
| "raised (Inl e # rs) = e # raised rs"
| "raised (Inr x # rs) = raised rs"

fun derived_events :: "'v document list \<Rightarrow> 'v event_doc list" where
  "derived_events [] = []"
| "derived_events (Event_doc d # ds) = d # derived_events ds"
| "derived_events (Start_doc m # ds) = derived_events ds"
| "derived_events (Stop_doc # ds) = derived_events ds"

text \<open>The stream is fed by primary events only: every descriptor id is known and names
  the primary stream.\<close>

definition primary :: "'v dichro_stream \<Rightarrow> 'v event_doc \<Rightarrow> bool" where
  "primary st doc =
     (case raw_descriptors st (descriptor doc) of
        None \<Rightarrow> False
      | Some d \<Rightarrow> desc_name d = Some ''primary'')"


subsection \<open>The derived event of the specification\<close>

text \<open>
  The specification's words for the matching case, to compare \<^verbatim>\<open>process_xmcd\<close> with:
  the readings of a channel in window order, the absorption of every event
  (\<open>ln(M[i]/D[i])\<close> in transmission, \<open>D[i]/M[i]\<close> otherwise), \<open>xas\<close> as their mean and
  \<open>xmcd\<close> as twice the mean of the absorptions multiplied by the pattern.
\<close>

definition column :: "'v event_doc list \<Rightarrow> channel \<Rightarrow> 'v list" where
  "column cache c = map (\<lambda>evt. the (data evt c)) cache"

definition spec_absorption :: "'v numpy \<Rightarrow> bool \<Rightarrow> 'v list \<Rightarrow> 'v list \<Rightarrow> 'v list" where
  "spec_absorption np transm M D =
     map (\<lambda>(m, d). if transm then log np (true_divide np m d) else true_divide np d m) (zip M D)"

definition spec_xas :: "'v numpy \<Rightarrow> 'v list \<Rightarrow> 'v" where
  "spec_xas np A = mean np A"

definition spec_xmcd :: "'v numpy \<Rightarrow> 'v list \<Rightarrow> int list \<Rightarrow> 'v" where
  "spec_xmcd np A pat =
     multiply np (mean np (map (\<lambda>(a, p). multiply np a (from_int np p)) (zip A pat)))
       (from_int np 2)"

text \<open>The absorptions of a window under given settings.\<close>

definition window_absorption :: "'v numpy \<Rightarrow> settings \<Rightarrow> 'v event_doc list \<Rightarrow> 'v list" where
  "window_absorption np s cache =
     spec_absorption np (transmission s)
       (column cache (the (monitor s))) (column cache (the (detector s)))"

text \<open>
  The positioner fields of the derived event (the mean of the readings of every
  configured positioner) and the whole event data of the matching case.
\<close>

definition spec_positions :: "'v numpy \<Rightarrow> settings \<Rightarrow> 'v event_doc list \<Rightarrow> (string \<rightharpoonup> 'v)" where
  "spec_positions np s cache =
     (let one = (case positioner1 s of
                   None \<Rightarrow> Map.empty
                 | Some p \<Rightarrow> [p \<mapsto> mean np (column cache p)])
      in case positioner2 s of
           None \<Rightarrow> one
         | Some p \<Rightarrow> one(p \<mapsto> mean np (column cache p)))"

definition spec_data :: "'v numpy \<Rightarrow> settings \<Rightarrow> 'v event_doc list \<Rightarrow> (string \<rightharpoonup> 'v)" where
  "spec_data np s cache =
     (spec_positions np s cache)
       (''xas'' \<mapsto> spec_xas np (window_absorption np s cache),
        ''xmcd'' \<mapsto> spec_xmcd np (window_absorption np s cache) (pattern s))"

text \<open>
  The tuple for the sink that belongs to the data of a derived event:
  \<open>(positioner1, positioner2, xas, xmcd)\<close>, with \<open>nan\<close> for a positioner that is
  not configured.
\<close>

definition spec_tuple :: "'v numpy \<Rightarrow> settings \<Rightarrow> (string \<rightharpoonup> 'v) \<Rightarrow> 'v \<times> 'v \<times> 'v \<times> 'v" where
  "spec_tuple np s d =
     ((case positioner1 s of None \<Rightarrow> nan np | Some p \<Rightarrow> the (d p)),
      (case positioner2 s of None \<Rightarrow> nan np | Some p \<Rightarrow> the (d p)),
      the (d ''xas''), the (d ''xmcd''))"

text \<open>
  The data of the degraded event: 0 for every configured positioner, for \<open>xas\<close> and
  for \<open>xmcd\<close>, and no other field.
\<close>

definition spec_degraded :: "'v numpy \<Rightarrow> settings \<Rightarrow> (string \<rightharpoonup> 'v)" where
  "spec_degraded np s =
     (\<lambda>k. if positioner1 s = Some k \<or> positioner2 s = Some k \<or> k = ''xas'' \<or> k = ''xmcd''
          then Some (from_int np 0) else None)"

text \<open>
  A well-formed event carries a reading for every key of its descriptor.
\<close>

definition conforms :: "descriptor_doc \<Rightarrow> 'v event_doc \<Rightarrow> bool" where
  "conforms desc evt = list_all (\<lambda>c. data evt c \<noteq> None) (desc_data_keys desc)"

text \<open>
  The same stream with \<open>positioner2\<close> configured as channel \<open>p\<close> before the run
  started.
\<close>

definition with_positioner2 :: "'v dichro_stream \<Rightarrow> channel \<Rightarrow> 'v dichro_stream" where
  "with_positioner2 st p =
     st\<lparr>settings := (settings st)\<lparr>positioner2 := Some p\<rparr>,
        data_keys := Some (get_keys ((settings st)\<lparr>positioner2 := Some p\<rparr>))\<rparr>"

subsection \<open>Values for the examples\<close>

text \<open>
  The examples need values to compute with.  They use the expressions themselves: a
  reading is a literal, and every numpy operation builds the expression it is asked to
  compute, so an example shows which operations are applied to which readings, in which
  order.
\<close>

datatype expr =
    Lit int
  | Mean "expr list"
  | Log expr
  | Divide expr expr
  | Multiply expr expr
  | NaN

definition symbolic :: "expr numpy" where
  "symbolic = \<lparr>mean = Mean, log = Log, true_divide = Divide, multiply = Multiply,
     from_int = Lit, nan = NaN\<rparr>"

text \<open>
  A run for the examples: the default settings, one primary descriptor \<open>d1\<close> with the
  three configured channels, a second primary descriptor \<open>d2\<close> without the detector
  channel, a descriptor \<open>b1\<close> of a baseline stream, and one observer of the device.
\<close>

definition d1 :: descriptor_doc where
  "d1 = \<lparr>desc_name = Some ''primary'', desc_data_keys = [''energy'', ''4idhI0'', ''4idhI1'']\<rparr>"

definition d2 :: descriptor_doc where
  "d2 = \<lparr>desc_name = Some ''primary'', desc_data_keys = [''energy'', ''4idhI0'']\<rparr>"

definition b1 :: descriptor_doc where
  "b1 = \<lparr>desc_name = Some ''baseline'', desc_data_keys = [''temperature'']\<rparr>"

definition reading :: "string \<Rightarrow> int \<Rightarrow> int \<Rightarrow> int \<Rightarrow> expr event_doc" where
  "reading desc_id e m d =
     \<lparr>descriptor = desc_id,
      data = [''energy'' \<mapsto> Lit e, ''4idhI0'' \<mapsto> Lit m, ''4idhI1'' \<mapsto> Lit d]\<rparr>"

definition idle :: "expr dichro_stream" where
  "idle =
     (init symbolic)\<lparr>dichro := subscribe (dichro_device symbolic) ''plot'' None False\<rparr>"

definition armed :: "expr dichro_stream" where
  "armed =
     receive_descriptor
       (receive_descriptor (receive_descriptor (start idle) ''d1'' d1) ''d2'' d2) ''b1'' b1"

definition window1 :: "expr event_doc list" where
  "window1 = [reading ''d1'' 7 100 50, reading ''d1'' 7 100 55,
              reading ''d1'' 7 100 55, reading ''d1'' 7 100 50]"

definition window2 :: "expr event_doc list" where
  "window2 = [reading ''d2'' 7 100 50, reading ''d2'' 7 100 55,
              reading ''d2'' 7 100 55, reading ''d2'' 7 100 50]"

definition mixed :: "expr event_doc list" where
  "mixed = [reading ''d1'' 7 100 50, reading ''d2'' 7 100 55,
            reading ''d1'' 7 100 55, reading ''d1'' 7 100 50]"

text \<open>Five primary events: one window and one trailing event.\<close>

definition five :: "expr event_doc list" where
  "five = window1 @ [reading ''d1'' 8 100 52]"

text \<open>A run of the examples with a pattern of two entries.\<close>

definition pair_run :: "expr dichro_stream" where
  "pair_run = start (idle\<lparr>settings := Settings\<lparr>pattern := [1, - 1]\<rparr>\<rparr>)"

section \<open>Properties\<close>

subsection \<open>Stopping a run\<close>

text \<open>
  Claim C9.  \<^verbatim>\<open>DichroStream.stop\<close> changes two fields of the settings, \<open>positioner1\<close>
  and \<open>positioner2\<close>, which it sets to \<^verbatim>\<open>None\<close>; the monitor, the detector, the
  transmission flag and the pattern are what they were before the call.
\<close>

theorem C9_stop_keeps_other_settings:
  "settings (stop st) = (settings st)\<lparr>positioner1 := None, positioner2 := None\<rparr>
   \<and> monitor (settings (stop st)) = monitor (settings st)
   \<and> detector (settings (stop st)) = detector (settings st)
   \<and> transmission (settings (stop st)) = transmission (settings st)
   \<and> pattern (settings (stop st)) = pattern (settings st)"
  by (simp add: stop_def base_stop_def)

theorem C9_stop_keeps_other_settings_witness:
  "monitor (settings (stop armed)) = Some ''4idhI0''
   \<and> detector (settings (stop armed)) = Some ''4idhI1''
   \<and> transmission (settings (stop armed))
   \<and> pattern (settings (stop armed)) = [1, - 1, - 1, 1]
   \<and> positioner1 (settings (stop armed)) = None"
  using C9_stop_keeps_other_settings [of armed]
  by (simp add: armed_def idle_def init_def Settings_def start_def base_start_def
      receive_descriptor_def)

subsection \<open>Events of other streams\<close>

text \<open>
  Claim C6.  An event whose descriptor does not name the primary stream is ignored by
  \<^verbatim>\<open>DichroStream.event\<close>: the call returns without an error and the whole state, the
  buffer included, is the state before the call.
\<close>

theorem C6_other_streams_ignored:
  assumes "raw_descriptors st (descriptor doc) = Some d"
    and "desc_name d \<noteq> Some ''primary''"
  shows "event np st doc = (None, st)"
  using assms by (simp add: event_def)

theorem C6_other_streams_ignored_witness:
  "event symbolic armed (reading ''b1'' 1 2 3) = (None, armed)"
proof -
  have "raw_descriptors armed (descriptor (reading ''b1'' 1 2 3)) = Some b1"
    by (simp add: armed_def receive_descriptor_def reading_def)
  moreover have "desc_name b1 \<noteq> Some ''primary''"
    by (simp add: b1_def)
  ultimately show ?thesis
    by (rule C6_other_streams_ignored)
qed

subsection \<open>Stopping and starting again\<close>

text \<open>
  Claim C5, as amended.  After \<^verbatim>\<open>DichroStream.stop\<close> the pipeline with its buffer is
  gone, the channel map is \<^verbatim>\<open>None\<close>, and both positioners of the settings are
  \<^verbatim>\<open>None\<close>.  The attribute \<^verbatim>\<open>n\<close> keeps the window size of the run that ended.  A
  following \<^verbatim>\<open>start\<close> builds a new pipeline with an empty buffer and the window size
  \<^verbatim>\<open>len(pattern)\<close>, whatever the state before the stop was.
\<close>

theorem C5_stop_then_start:
  "in_node (stop st) = None
   \<and> data_keys (stop st) = None
   \<and> positioner1 (settings (stop st)) = None
   \<and> positioner2 (settings (stop st)) = None
   \<and> stream_n (stop st) = stream_n st
   \<and> in_node (start (stop st)) = Some \<lparr>pn = length (pattern (settings st)), buffer = []\<rparr>
   \<and> stream_n (start (stop st)) = length (pattern (settings st))
   \<and> data_keys (start (stop st)) = Some (get_keys (settings (stop st)))"
  by (simp add: stop_def base_stop_def start_def base_start_def Let_def)

theorem C5_stop_then_start_witness:
  "in_node (stop pair_run) = None
   \<and> stream_n (stop pair_run) = 2
   \<and> in_node (start (stop pair_run)) = Some \<lparr>pn = 2, buffer = []\<rparr>"
  using C5_stop_then_start [of pair_run]
  by (simp add: pair_run_def idle_def init_def Settings_def start_def base_start_def Let_def)

text \<open>
  The claim as stated says that the window size is cleared.  After a run with a pattern
  of two entries the attribute \<^verbatim>\<open>n\<close> is still 2: \<^verbatim>\<open>stop\<close> does not assign it, so it
  is neither cleared nor back at its initial value 4.
\<close>

theorem C5_window_size_kept_counterexample:
  "stream_n (stop pair_run) = 2 \<and> stream_n (init symbolic) = 4
   \<and> stream_n (stop pair_run) = length (pattern (settings pair_run))"
  by (simp add: pair_run_def idle_def init_def Settings_def start_def base_start_def Let_def
      stop_def base_stop_def)

subsection \<open>Windows of mixed descriptors\<close>

lemma mixed_not_all:
  assumes "e1 \<in> set cache" "e2 \<in> set cache" "descriptor e1 \<noteq> descriptor e2"
  shows "\<not> list_all (\<lambda>evt. x = descriptor evt) cache"
  using assms unfolding list_all_iff by metis

lemma process_xmcd_mixed:
  assumes "e1 \<in> set cache" and "e2 \<in> set cache"
    and "descriptor e1 \<noteq> descriptor e2"
  shows "process_xmcd np st cache =
           (Inl (Exception ''The events in this bundle are from differentconfigurations!''), st)"
proof -
  have "cache \<noteq> []"
    using assms(1) by auto
  then show ?thesis
    using mixed_not_all [OF assms]
    by (cases cache) (simp_all add: process_xmcd_def Let_def)
qed

text \<open>
  Claim C3.  A window with events of two different descriptor ids makes
  \<^verbatim>\<open>process_xmcd\<close> raise before it has done anything: the state is untouched.  The
  exception leaves through \<^verbatim>\<open>DichroStream.event\<close>, the call that completed the window;
  nothing was put on the device, no event was emitted and no warning was logged.
\<close>

theorem C3_mixed_descriptors_raise:
  assumes "e1 \<in> set cache" and "e2 \<in> set cache"
    and "descriptor e1 \<noteq> descriptor e2"
  shows "process_xmcd np st cache =
           (Inl (Exception ''The events in this bundle are from differentconfigurations!''), st)
         \<and> (in_node st = Some node \<and> primary st doc \<and> buffer node @ [doc] = cache
              \<and> length cache = pn node
            \<longrightarrow> (\<exists>st'. event np st doc =
                   (Some (Exception ''The events in this bundle are from differentconfigurations!''), st')
                 \<and> dichro st' = dichro st \<and> emitted st' = emitted st \<and> warnings st' = warnings st))"
proof -
  note raise = process_xmcd_mixed [OF assms, of np]
  show ?thesis
    by (auto simp: raise event_def emit_def primary_def Let_def split: option.splits)
qed

theorem C3_mixed_descriptors_raise_witness:
  "process_xmcd symbolic armed mixed =
     (Inl (Exception ''The events in this bundle are from differentconfigurations!''), armed)
   \<and> fst (event symbolic (armed\<lparr>in_node := Some \<lparr>pn = 4, buffer = butlast mixed\<rparr>\<rparr>) (last mixed)) =
       Some (Exception ''The events in this bundle are from differentconfigurations!'')
   \<and> dichro (snd (event symbolic (armed\<lparr>in_node := Some \<lparr>pn = 4, buffer = butlast mixed\<rparr>\<rparr>)
       (last mixed))) = dichro armed
   \<and> emitted (snd (event symbolic (armed\<lparr>in_node := Some \<lparr>pn = 4, buffer = butlast mixed\<rparr>\<rparr>)
       (last mixed))) = emitted armed"
proof -
  let ?st = "armed\<lparr>in_node := Some \<lparr>pn = 4, buffer = butlast mixed\<rparr>\<rparr>"
  have in1: "reading ''d1'' 7 100 50 \<in> set mixed" and in2: "reading ''d2'' 7 100 55 \<in> set mixed"
    by (simp_all add: mixed_def)
  have ne: "descriptor (reading ''d1'' 7 100 50) \<noteq> descriptor (reading ''d2'' 7 100 55)"
    by (simp add: reading_def)
  have pre: "in_node ?st = Some \<lparr>pn = 4, buffer = butlast mixed\<rparr> \<and> primary ?st (last mixed)
      \<and> buffer \<lparr>pn = 4, buffer = butlast mixed\<rparr> @ [last mixed] = mixed
      \<and> length mixed = pn \<lparr>pn = 4, buffer = butlast mixed\<rparr>"
    by (simp add: mixed_def primary_def armed_def receive_descriptor_def reading_def d1_def)
  from C3_mixed_descriptors_raise [OF in1 in2 ne, of symbolic armed] 
    C3_mixed_descriptors_raise [OF in1 in2 ne, of symbolic ?st "\<lparr>pn = 4, buffer = butlast mixed\<rparr>" "last mixed"] pre
  show ?thesis by auto
qed

subsection \<open>The device\<close>







subsection \<open>The reducer\<close>

text \<open>
  The keys of the channel map are the four role names, so the substring tests of the two
  loops come out as follows.
\<close>

lemma str_in_keys:
  "str_in ''positioner1'' ''positioner1''" "\<not> str_in ''positioner1'' ''positioner2''"
  "\<not> str_in ''positioner1'' ''monitor''" "\<not> str_in ''positioner1'' ''detector''"
  "str_in ''positioner2'' ''positioner2''"
  "\<not> str_in ''positioner2'' ''monitor''" "\<not> str_in ''positioner2'' ''detector''"
  "str_in ''monitor'' ''monitor''" "\<not> str_in ''monitor'' ''detector''"
  "str_in ''detector'' ''detector''"
  "str_in ''positioner'' ''positioner1''" "str_in ''positioner'' ''positioner2''"
  "\<not> str_in ''positioner'' ''monitor''" "\<not> str_in ''positioner'' ''detector''"
  by simp_all

lemma readings_column:
  "list_all (\<lambda>evt. data evt c \<noteq> None) cache \<Longrightarrow> readings cache c = Inr (column cache c)"
  by (induction cache) (auto simp: column_def)

lemma length_column: "length (column cache c) = length cache"
  by (simp add: column_def)

lemma zip_swap_map:
  "map (\<lambda>p. f (fst p) (snd p)) (zip ys xs) = map (\<lambda>p. f (snd p) (fst p)) (zip xs ys)"
  by (induction xs ys rule: list_induct2') simp_all

lemma absorption_spec:
  "absorption np transm (Some M) (Some D) = Inr (spec_absorption np transm M D)"
  by (simp add: absorption_def spec_absorption_def array_divide_def split_def comp_def
      zip_swap_map [of "true_divide np" D M])

lemma step_positioner1:
  "list_all (\<lambda>evt. data evt c \<noteq> None) cache \<Longrightarrow>
   match_step np cache (''positioner1'', c) (pe, mon, det) =
     Inr (pe(c \<mapsto> mean np (column cache c)), mon, det)"
  by (simp add: match_step_def readings_column del: str_in.simps) (simp add: str_in_keys)


lemma step_positioner2:
  "list_all (\<lambda>evt. data evt c \<noteq> None) cache \<Longrightarrow>
   match_step np cache (''positioner2'', c) (pe, mon, det) =
     Inr (pe(c \<mapsto> mean np (column cache c)), mon, det)"
  by (simp add: match_step_def readings_column del: str_in.simps) (simp add: str_in_keys)

lemma step_monitor:
  "list_all (\<lambda>evt. data evt c \<noteq> None) cache \<Longrightarrow>
   match_step np cache (''monitor'', c) (pe, mon, det) = Inr (pe, Some (column cache c), det)"
  by (simp add: match_step_def readings_column del: str_in.simps) (simp add: str_in_keys)

lemma step_detector:
  "list_all (\<lambda>evt. data evt c \<noteq> None) cache \<Longrightarrow>
   match_step np cache (''detector'', c) (pe, mon, det) = Inr (pe, mon, Some (column cache c))"
  by (simp add: match_step_def readings_column del: str_in.simps) (simp add: str_in_keys)

lemmas match_steps = step_positioner1 step_positioner2 step_monitor step_detector

text \<open>Every configured channel has a reading in every event of the window.\<close>

lemma configured_readings:
  assumes "list_all (\<lambda>key. key \<in> set (desc_data_keys desc)) (map snd (get_keys s))"
    and "list_all (conforms desc) cache"
    and "(role, c) \<in> set (get_keys s)"
  shows "list_all (\<lambda>evt. data evt c \<noteq> None) cache"
  using assms unfolding list_all_iff conforms_def by force

lemma get_keys_mem:
  "positioner1 s = Some c \<Longrightarrow> (''positioner1'', c) \<in> set (get_keys s)"
  "positioner2 s = Some c \<Longrightarrow> (''positioner2'', c) \<in> set (get_keys s)"
  "monitor s = Some c \<Longrightarrow> (''monitor'', c) \<in> set (get_keys s)"
  "detector s = Some c \<Longrightarrow> (''detector'', c) \<in> set (get_keys s)"
  by (auto simp: get_keys_def split: option.splits)

lemma match_loop_get_keys:
  assumes schema: "list_all (\<lambda>key. key \<in> set (desc_data_keys desc)) (map snd (get_keys s))"
    and conf: "list_all (conforms desc) cache"
    and mon: "monitor s = Some m" and det: "detector s = Some d"
  shows "match_loop np cache (get_keys s) (Map.empty, None, None) =
           Inr (spec_positions np s cache, Some (column cache m), Some (column cache d))"
proof -
  note r = configured_readings [OF schema conf]
  have rm: "list_all (\<lambda>evt. data evt m \<noteq> None) cache"
    and rdt: "list_all (\<lambda>evt. data evt d \<noteq> None) cache"
    using r get_keys_mem(3) [OF mon] get_keys_mem(4) [OF det] by blast+
  show ?thesis
  proof (cases "positioner1 s")
    case n1: None
    show ?thesis
    proof (cases "positioner2 s")
      case None
      with n1 mon det rm rdt show ?thesis
        by (simp add: get_keys_def match_steps spec_positions_def)
    next
      case (Some p2)
      then have "list_all (\<lambda>evt. data evt p2 \<noteq> None) cache"
        using r get_keys_mem(2) by blast
      with n1 Some mon det rm rdt show ?thesis
        by (simp add: get_keys_def match_steps spec_positions_def)
    qed
  next
    case s1: (Some p1)
    then have r1: "list_all (\<lambda>evt. data evt p1 \<noteq> None) cache"
      using r get_keys_mem(1) by blast
    show ?thesis
    proof (cases "positioner2 s")
      case None
      with s1 r1 mon det rm rdt show ?thesis
        by (simp add: get_keys_def match_steps spec_positions_def)
    next
      case (Some p2)
      then have "list_all (\<lambda>evt. data evt p2 \<noteq> None) cache"
        using r get_keys_mem(2) by blast
      with s1 r1 Some mon det rm rdt show ?thesis
        by (simp add: get_keys_def match_steps spec_positions_def)
    qed
  qed
qed


lemma array_multiply_pattern:
  "length xs = length pat \<Longrightarrow>
   array_multiply np xs (map (from_int np) pat) =
     Inr (map (\<lambda>(a, p). multiply np a (from_int np p)) (zip xs pat))"
  by (simp add: array_multiply_def zip_map2 split_def comp_def)

lemma length_window_absorption:
  "length (window_absorption np s cache) = length cache"
  by (simp add: window_absorption_def spec_absorption_def length_column)

lemma match_branch_spec:
  assumes "list_all (\<lambda>key. key \<in> set (desc_data_keys desc)) (map snd (get_keys s))"
    and "list_all (conforms desc) cache"
    and "monitor s = Some m" and "detector s = Some d"
    and "length (pattern s) = length cache"
  shows "match_branch np s (get_keys s) cache = Inr (spec_data np s cache)"
proof -
  have len: "length (spec_absorption np (transmission s) (column cache m) (column cache d))
      = length (pattern s)"
    using assms(5) by (simp add: spec_absorption_def length_column)
  show ?thesis
    using assms(3,4)
    by (simp add: match_branch_def match_loop_get_keys [OF assms(1-4)] absorption_spec
        array_multiply_pattern [OF len] spec_data_def window_absorption_def spec_xas_def
        spec_xmcd_def)
qed

lemma dichro_out_spec:
  assumes "\<And>p. positioner1 s = Some p \<Longrightarrow> d p \<noteq> None"
    and "\<And>p. positioner2 s = Some p \<Longrightarrow> d p \<noteq> None"
    and "d ''xas'' \<noteq> None" and "d ''xmcd'' \<noteq> None"
  shows "dichro_out np s d = Inr (spec_tuple np s d)"
  using assms
  by (auto simp: dichro_out_def position_def lookup_def spec_tuple_def split: option.splits)

lemma spec_data_defined:
  "positioner1 s = Some p \<Longrightarrow> spec_data np s cache p \<noteq> None"
  "positioner2 s = Some p \<Longrightarrow> spec_data np s cache p \<noteq> None"
  "spec_data np s cache ''xas'' \<noteq> None" "spec_data np s cache ''xmcd'' \<noteq> None"
  by (auto simp: spec_data_def spec_positions_def Let_def split: option.splits)

lemma process_xmcd_match:
  assumes ne: "cache \<noteq> []"
    and same: "list_all (\<lambda>evt. descriptor (hd cache) = descriptor evt) cache"
    and dk: "data_keys st = Some (get_keys (settings st))"
    and rd: "raw_descriptors st (descriptor (hd cache)) = Some desc"
    and schema: "list_all (\<lambda>key. key \<in> set (desc_data_keys desc))
                   (map snd (get_keys (settings st)))"
    and conf: "list_all (conforms desc) cache"
    and mon: "monitor (settings st) = Some m" and det: "detector (settings st) = Some d"
    and len: "length (pattern (settings st)) = length cache"
  shows "process_xmcd np st cache =
           (Inr \<lparr>descriptor = descriptor (hd cache), data = spec_data np (settings st) cache\<rparr>,
            st\<lparr>dichro := put (dichro st)
                 (spec_tuple np (settings st) (spec_data np (settings st) cache))\<rparr>)"
proof -
  obtain evt0 rest where c: "cache = evt0 # rest"
    using ne by (cases cache) auto
  have k: "keys_in_schema st (descriptor evt0) (map snd (get_keys (settings st))) = Inr True"
    using rd schema by (simp add: keys_in_schema_def c)
  have out: "dichro_out np (settings st) (spec_data np (settings st) cache) =
      Inr (spec_tuple np (settings st) (spec_data np (settings st) cache))"
    by (rule dichro_out_spec) (simp_all add: spec_data_defined)
  have same': "list_all (\<lambda>evt. descriptor evt0 = descriptor evt) rest"
    using same by (simp add: c)
  show ?thesis
    using k out same' match_branch_spec [OF schema conf mon det len, of np]
    by (simp add: process_xmcd_def Let_def dk publish_def c)
qed

lemma degraded_branch_spec:
  "degraded_branch np (get_keys s) = spec_degraded np s"
  by (cases "positioner1 s"; cases "positioner2 s"; cases "monitor s"; cases "detector s")
     (auto simp: degraded_branch_def get_keys_def spec_degraded_def fun_eq_iff)

lemma process_xmcd_degraded:
  assumes ne: "cache \<noteq> []"
    and same: "list_all (\<lambda>evt. descriptor (hd cache) = descriptor evt) cache"
    and dk: "data_keys st = Some (get_keys (settings st))"
    and rd: "raw_descriptors st (descriptor (hd cache)) = Some desc"
    and schema: "\<not> list_all (\<lambda>key. key \<in> set (desc_data_keys desc))
                   (map snd (get_keys (settings st)))"
  shows "process_xmcd np st cache =
           (Inr \<lparr>descriptor = descriptor (hd cache), data = spec_degraded np (settings st)\<rparr>,
            st\<lparr>warnings := warnings st @ [mismatch_warning],
               dichro := put (dichro st)
                 (spec_tuple np (settings st) (spec_degraded np (settings st)))\<rparr>)"
proof -
  obtain evt0 rest where c: "cache = evt0 # rest"
    using ne by (cases cache) auto
  have nonempty: "map snd (get_keys (settings st)) \<noteq> []"
    using schema by auto
  have k: "keys_in_schema st (descriptor evt0) (map snd (get_keys (settings st))) = Inr False"
    using rd schema nonempty by (simp add: keys_in_schema_def c)
  have out: "dichro_out np (settings st) (spec_degraded np (settings st)) =
      Inr (spec_tuple np (settings st) (spec_degraded np (settings st)))"
    by (rule dichro_out_spec) (simp_all add: spec_degraded_def)
  have same': "list_all (\<lambda>evt. descriptor evt0 = descriptor evt) rest"
    using same by (simp add: c)
  show ?thesis
    using k out same'
    by (simp add: process_xmcd_def Let_def dk publish_def c degraded_branch_spec)
qed

text \<open>Facts about the run of the examples.\<close>

lemma armed_simps:
  "settings armed = Settings" "data_keys armed = Some (get_keys Settings)"
  "raw_descriptors armed ''d1'' = Some d1" "raw_descriptors armed ''d2'' = Some d2"
  "raw_descriptors armed ''b1'' = Some b1"
  "in_node armed = Some \<lparr>pn = 4, buffer = []\<rparr>"
  "emitted armed = [Start_doc [''energy'']]" "warnings armed = []"
  "dichro armed = \<lparr>signals = (Lit 0, Lit 0, Lit 0, Lit 0), callbacks = [(''acq_done'', ''plot'')],
     args_cache = [], notified = []\<rparr>"
  by (simp_all add: armed_def idle_def init_def start_def base_start_def receive_descriptor_def
      Settings_def Let_def subscribe_def base_subscribe_def dichro_device_def symbolic_def
      map_filter_simps)

lemma window1_simps:
  "window1 \<noteq> []" "descriptor (hd window1) = ''d1''" "length window1 = 4"
  "list_all (\<lambda>evt. ''d1'' = descriptor evt) window1"
  "list_all (conforms d1) window1"
  by (simp_all add: window1_def reading_def conforms_def d1_def)

lemma list4: "length xs = 4 \<Longrightarrow> xs = [xs ! 0, xs ! 1, xs ! 2, xs ! 3]"
  by (rule nth_equalityI) (auto simp: nth_Cons' less_Suc_eq numeral_eq_Suc)

text \<open>
  Claim C1.  Take a window of \<open>N = len(pattern)\<close> events of one descriptor, under the
  channel map of the settings, whose descriptor has every configured channel among its
  keys, with well-formed events (a reading for every key of the descriptor) and with the
  monitor and the detector configured.  Then \<^verbatim>\<open>process_xmcd\<close> returns a derived event.
  With \<open>A[i] = log(M[i] / D[i])\<close> in transmission and \<open>A[i] = D[i] / M[i]\<close> otherwise,
  \<open>M\<close> and \<open>D\<close> the monitor and detector readings of the window in its order, the
  event has \<open>xas = mean(A)\<close> and \<open>xmcd = mean(A[i] * pattern[i]) * 2\<close>.
\<close>

theorem C1_reduction_formula:
  assumes "cache \<noteq> []"
    and "list_all (\<lambda>evt. descriptor (hd cache) = descriptor evt) cache"
    and "data_keys st = Some (get_keys (settings st))"
    and "raw_descriptors st (descriptor (hd cache)) = Some desc"
    and "list_all (\<lambda>key. key \<in> set (desc_data_keys desc)) (map snd (get_keys (settings st)))"
    and "list_all (conforms desc) cache"
    and "monitor (settings st) = Some m" and "detector (settings st) = Some d"
    and "length (pattern (settings st)) = length cache"
  shows "\<exists>out st' A.
           process_xmcd np st cache = (Inr out, st')
         \<and> length A = length cache
         \<and> (\<forall>i<length cache.
               A ! i = (if transmission (settings st)
                        then log np (true_divide np (the (data (cache ! i) m))
                                                     (the (data (cache ! i) d)))
                        else true_divide np (the (data (cache ! i) d))
                                            (the (data (cache ! i) m))))
         \<and> data out ''xas'' = Some (mean np A)
         \<and> data out ''xmcd'' =
             Some (multiply np
                    (mean np (map (\<lambda>i. multiply np (A ! i) (from_int np (pattern (settings st) ! i)))
                                  [0..<length cache]))
                    (from_int np 2))"
proof -
  let ?A = "window_absorption np (settings st) cache"
  have len: "length ?A = length cache"
    by (rule length_window_absorption)
  have point: "?A ! i = (if transmission (settings st)
                        then log np (true_divide np (the (data (cache ! i) m))
                                                     (the (data (cache ! i) d)))
                        else true_divide np (the (data (cache ! i) d))
                                            (the (data (cache ! i) m)))" if "i < length cache" for i
    using that assms(7,8)
    by (simp add: window_absorption_def spec_absorption_def column_def)
  have "map (\<lambda>(a, p). multiply np a (from_int np p)) (zip ?A (pattern (settings st))) =
      map (\<lambda>i. multiply np (?A ! i) (from_int np (pattern (settings st) ! i))) [0..<length cache]"
    using len assms(9) by (intro nth_equalityI) simp_all
  then have "data \<lparr>descriptor = descriptor (hd cache), data = spec_data np (settings st) cache\<rparr> ''xmcd''
      = Some (multiply np
                    (mean np (map (\<lambda>i. multiply np (?A ! i) (from_int np (pattern (settings st) ! i)))
                                  [0..<length cache]))
                    (from_int np 2))"
    by (simp add: spec_data_def spec_xmcd_def)
  moreover have "data \<lparr>descriptor = descriptor (hd cache), data = spec_data np (settings st) cache\<rparr> ''xas''
      = Some (mean np ?A)"
    by (simp add: spec_data_def spec_xas_def)
  ultimately show ?thesis
    using process_xmcd_match [OF assms, of np] len point by blast
qed

theorem C1_reduction_formula_witness:
  "\<exists>out st'.
     process_xmcd symbolic armed window1 = (Inr out, st')
   \<and> data out ''xas'' =
       Some (Mean [Log (Divide (Lit 100) (Lit 50)), Log (Divide (Lit 100) (Lit 55)),
                   Log (Divide (Lit 100) (Lit 55)), Log (Divide (Lit 100) (Lit 50))])
   \<and> data out ''xmcd'' =
       Some (Multiply
              (Mean [Multiply (Log (Divide (Lit 100) (Lit 50))) (Lit 1),
                     Multiply (Log (Divide (Lit 100) (Lit 55))) (Lit (- 1)),
                     Multiply (Log (Divide (Lit 100) (Lit 55))) (Lit (- 1)),
                     Multiply (Log (Divide (Lit 100) (Lit 50))) (Lit 1)])
              (Lit 2))"
proof -
  have d: "descriptor (hd window1) = ''d1''"
    by (simp add: window1_simps reading_def)
  have h2: "list_all (\<lambda>evt. descriptor (hd window1) = descriptor evt) window1"
    by (simp add: window1_def reading_def)
  have h4: "raw_descriptors armed (descriptor (hd window1)) = Some d1"
    by (simp only: d armed_simps)
  have h5: "list_all (\<lambda>key. key \<in> set (desc_data_keys d1)) (map snd (get_keys (settings armed)))"
    by (simp add: armed_simps get_keys_def Settings_def d1_def)
  have h7: "monitor (settings armed) = Some ''4idhI0''"
    and h8: "detector (settings armed) = Some ''4idhI1''"
    and h9: "length (pattern (settings armed)) = length window1"
    by (simp_all add: armed_simps Settings_def window1_simps)
  from C1_reduction_formula [OF window1_simps(1) h2 armed_simps(2) [folded armed_simps(1)]
      h4 h5 window1_simps(5) h7 h8 h9, of symbolic]
  obtain out st' A where
    run: "process_xmcd symbolic armed window1 = (Inr out, st')"
    and len: "length A = 4"
    and point: "\<forall>i<length window1. A ! i =
        (if transmission (settings armed)
         then log symbolic (true_divide symbolic (the (data (window1 ! i) ''4idhI0''))
                (the (data (window1 ! i) ''4idhI1'')))
         else true_divide symbolic (the (data (window1 ! i) ''4idhI1''))
                (the (data (window1 ! i) ''4idhI0'')))"
    and xas: "data out ''xas'' = Some (mean symbolic A)"
    and xmcd: "data out ''xmcd'' =
        Some (multiply symbolic
               (mean symbolic (map (\<lambda>i. multiply symbolic (A ! i)
                   (from_int symbolic (pattern (settings armed) ! i))) [0..<length window1]))
               (from_int symbolic 2))"
    by (auto simp: window1_simps)
  have "A ! 0 = Log (Divide (Lit 100) (Lit 50))" "A ! 1 = Log (Divide (Lit 100) (Lit 55))"
    "A ! 2 = Log (Divide (Lit 100) (Lit 55))" "A ! 3 = Log (Divide (Lit 100) (Lit 50))"
    using point
    by (simp_all add: window1_simps armed_simps Settings_def window1_def reading_def symbolic_def)
  with list4 [OF len]
  have A: "A = [Log (Divide (Lit 100) (Lit 50)), Log (Divide (Lit 100) (Lit 55)),
                Log (Divide (Lit 100) (Lit 55)), Log (Divide (Lit 100) (Lit 50))]"
    by simp
  have up: "[0..<4] = [0, 1, 2, 3]"
    by (simp add: upt_rec numeral_eq_Suc)
  show ?thesis
    using run xas xmcd
    by (simp add: A up window1_simps armed_simps Settings_def symbolic_def)
qed

lemma window2_simps:
  "window2 \<noteq> []" "descriptor (hd window2) = ''d2''" "length window2 = 4"
  "list_all (\<lambda>evt. descriptor (hd window2) = descriptor evt) window2"
  by (simp_all add: window2_def reading_def)

text \<open>
  Claim C4.  Take a window of one descriptor, under the channel map of the settings,
  whose descriptor lacks one of the configured channels.  Then \<^verbatim>\<open>process_xmcd\<close> raises
  nothing: it logs the warning and returns a derived event whose \<open>xas\<close>, \<open>xmcd\<close> and
  positioner fields are all 0.  The data of that event is a function of the settings
  alone; no reading of the window enters it.
\<close>

theorem C4_degraded_event:
  assumes "cache \<noteq> []"
    and "list_all (\<lambda>evt. descriptor (hd cache) = descriptor evt) cache"
    and "data_keys st = Some (get_keys (settings st))"
    and "raw_descriptors st (descriptor (hd cache)) = Some desc"
    and "\<not> list_all (\<lambda>key. key \<in> set (desc_data_keys desc)) (map snd (get_keys (settings st)))"
  shows "\<exists>out st'.
           process_xmcd np st cache = (Inr out, st')
         \<and> warnings st' = warnings st @ [mismatch_warning]
         \<and> data out ''xas'' = Some (from_int np 0)
         \<and> data out ''xmcd'' = Some (from_int np 0)
         \<and> (\<forall>p. positioner1 (settings st) = Some p \<or> positioner2 (settings st) = Some p
                \<longrightarrow> data out p = Some (from_int np 0))
         \<and> data out = spec_degraded np (settings st)"
  using process_xmcd_degraded [OF assms, of np]
  by (auto simp: spec_degraded_def)

theorem C4_degraded_event_witness:
  "\<exists>out st'.
     process_xmcd symbolic armed window2 = (Inr out, st')
   \<and> warnings st' = [mismatch_warning]
   \<and> data out ''xas'' = Some (Lit 0)
   \<and> data out ''xmcd'' = Some (Lit 0)
   \<and> data out ''energy'' = Some (Lit 0)"
proof -
  have h4: "raw_descriptors armed (descriptor (hd window2)) = Some d2"
    by (simp only: window2_simps armed_simps)
  have h5: "\<not> list_all (\<lambda>key. key \<in> set (desc_data_keys d2))
      (map snd (get_keys (settings armed)))"
    by (simp add: armed_simps get_keys_def Settings_def d2_def)
  from C4_degraded_event [OF window2_simps(1) window2_simps(4)
      armed_simps(2) [folded armed_simps(1)] h4 h5, of symbolic]
  show ?thesis
    by (auto simp: armed_simps Settings_def symbolic_def)
qed

subsection \<open>What a reduction leaves behind\<close>

text \<open>
  A window that \<^verbatim>\<open>process_xmcd\<close> reduces has been put on the device exactly once, with
  the tuple of its data; a window for which it raises has not reached the device.  Either
  way the settings, the channel map and the descriptors are untouched, and so is what
  \<^verbatim>\<open>process_xmcd\<close> returns for any window.
\<close>

lemma signals_put: "signals (put dev t) = t"
  by (simp add: put_def run_subs_def base_put_def)

lemma dichro_out_returns:
  "dichro_out np s d = Inr t \<Longrightarrow> t = spec_tuple np s d"
  by (auto simp: dichro_out_def position_def lookup_def spec_tuple_def
      split: option.splits sum.splits)

lemma publish_returns:
  "publish np st desc_id pe = (Inr out, st') \<Longrightarrow>
   out = \<lparr>descriptor = desc_id, data = pe\<rparr>
   \<and> st' = st\<lparr>dichro := put (dichro st) (spec_tuple np (settings st) pe)\<rparr>"
  by (auto simp: publish_def split: sum.splits dest: dichro_out_returns)

lemma process_xmcd_returns:
  assumes "process_xmcd np st cache = (Inr out, st')"
  shows "dichro st' = put (dichro st) (spec_tuple np (settings st) (data out))
         \<and> emitted st' = emitted st \<and> in_node st' = in_node st
         \<and> settings st' = settings st \<and> data_keys st' = data_keys st
         \<and> raw_descriptors st' = raw_descriptors st"
  using assms
  by (auto simp: process_xmcd_def Let_def
      split: list.splits if_splits option.splits sum.splits bool.splits
      dest!: publish_returns)

lemma process_xmcd_raises:
  assumes "process_xmcd np st cache = (Inl e, st')"
  shows "dichro st' = dichro st
         \<and> emitted st' = emitted st \<and> in_node st' = in_node st
         \<and> settings st' = settings st \<and> data_keys st' = data_keys st
         \<and> raw_descriptors st' = raw_descriptors st"
  using assms
  by (auto simp: process_xmcd_def Let_def publish_def
      split: list.splits if_splits option.splits sum.splits bool.splits)


lemma get_keys_positioner2:
  "positioner2 s = None \<Longrightarrow>
   set (map snd (get_keys (s\<lparr>positioner2 := Some p\<rparr>))) = insert p (set (map snd (get_keys s)))"
  by (auto simp: get_keys_def split: option.splits)

lemma window_absorption_positioner2:
  "window_absorption np (s\<lparr>positioner2 := x\<rparr>) cache = window_absorption np s cache"
  by (simp add: window_absorption_def)

lemma spec_data_xas:
  "spec_data np s cache ''xas'' = Some (spec_xas np (window_absorption np s cache))"
  "spec_data np s cache ''xmcd'' =
     Some (spec_xmcd np (window_absorption np s cache) (pattern s))"
  by (simp_all add: spec_data_def)

lemma spec_tuple_parts:
  "positioner2 s = None \<Longrightarrow> fst (snd (spec_tuple np s d)) = nan np"
  "snd (snd (spec_tuple np s d)) = (the (d ''xas''), the (d ''xmcd''))"
  by (simp_all add: spec_tuple_def)

lemma reduce_config:
  assumes "settings st = settings st'" and "data_keys st = data_keys st'"
    and "raw_descriptors st = raw_descriptors st'"
  shows "reduce np st cache = reduce np st' cache"
  using assms
  by (auto simp: reduce_def process_xmcd_def Let_def publish_def keys_in_schema_def
      split: list.splits option.splits sum.splits bool.splits)

lemma tuple_window1:
  "spec_tuple symbolic Settings (spec_data symbolic Settings window1) =
     (Mean [Lit 7, Lit 7, Lit 7, Lit 7], NaN,
      Mean [Log (Divide (Lit 100) (Lit 50)), Log (Divide (Lit 100) (Lit 55)),
            Log (Divide (Lit 100) (Lit 55)), Log (Divide (Lit 100) (Lit 50))],
      Multiply
        (Mean [Multiply (Log (Divide (Lit 100) (Lit 50))) (Lit 1),
               Multiply (Log (Divide (Lit 100) (Lit 55))) (Lit (- 1)),
               Multiply (Log (Divide (Lit 100) (Lit 55))) (Lit (- 1)),
               Multiply (Log (Divide (Lit 100) (Lit 50))) (Lit 1)])
        (Lit 2))"
  by (simp add: spec_tuple_def spec_data_def spec_positions_def spec_xas_def spec_xmcd_def
      window_absorption_def spec_absorption_def column_def Settings_def window1_def
      reading_def symbolic_def)

lemma reduce_window1:
  "reduce symbolic armed window1 =
     Inr \<lparr>descriptor = ''d1'', data = spec_data symbolic Settings window1\<rparr>"
  using process_xmcd_match [of window1 armed d1 "''4idhI0''" "''4idhI1''" symbolic]
  by (simp add: armed_simps window1_simps reduce_def) (simp add: Settings_def get_keys_def d1_def)


text \<open>
  Claim C7, as amended.  With \<open>positioner2\<close> unset, the tuple of every window that is
  reduced has \<open>nan\<close> in its second place.  For a well-formed window the values of
  \<open>xas\<close> and \<open>xmcd\<close>, in the derived event and in the tuple, are those of the same
  run with \<open>positioner2\<close> set to a channel \<open>p\<close> that is a key of the window's
  descriptor: the absorption does not read the positioner fields.
\<close>

theorem C7_absent_positioner2:
  "(positioner2 (settings st) = None \<and> process_xmcd np st cache = (Inr out, st')
      \<longrightarrow> fst (snd (signals (dichro st'))) = nan np)
   \<and> (positioner2 (settings st) = None
      \<and> cache \<noteq> []
      \<and> list_all (\<lambda>evt. descriptor (hd cache) = descriptor evt) cache
      \<and> data_keys st = Some (get_keys (settings st))
      \<and> raw_descriptors st (descriptor (hd cache)) = Some desc
      \<and> list_all (conforms desc) cache
      \<and> monitor (settings st) = Some m \<and> detector (settings st) = Some d
      \<and> length (pattern (settings st)) = length cache
      \<and> p \<in> set (desc_data_keys desc)
      \<longrightarrow> (\<exists>out1 st1 out2 st2.
             process_xmcd np st cache = (Inr out1, st1)
           \<and> process_xmcd np (with_positioner2 st p) cache = (Inr out2, st2)
           \<and> fst (snd (signals (dichro st1))) = nan np
           \<and> data out1 ''xas'' = data out2 ''xas''
           \<and> data out1 ''xmcd'' = data out2 ''xmcd''
           \<and> snd (snd (signals (dichro st1))) = snd (snd (signals (dichro st2)))))"
proof (intro conjI impI)
  assume "positioner2 (settings st) = None \<and> process_xmcd np st cache = (Inr out, st')"
  then show "fst (snd (signals (dichro st'))) = nan np"
    using process_xmcd_returns [of np st cache out st']
    by (simp add: signals_put spec_tuple_parts)
next
  assume a: "positioner2 (settings st) = None
      \<and> cache \<noteq> []
      \<and> list_all (\<lambda>evt. descriptor (hd cache) = descriptor evt) cache
      \<and> data_keys st = Some (get_keys (settings st))
      \<and> raw_descriptors st (descriptor (hd cache)) = Some desc
      \<and> list_all (conforms desc) cache
      \<and> monitor (settings st) = Some m \<and> detector (settings st) = Some d
      \<and> length (pattern (settings st)) = length cache
      \<and> p \<in> set (desc_data_keys desc)"
  let ?st2 = "with_positioner2 st p"
  let ?s = "settings st" and ?s2 = "settings (with_positioner2 st p)"
  from a have none: "positioner2 ?s = None" and ne: "cache \<noteq> []"
    and same: "list_all (\<lambda>evt. descriptor (hd cache) = descriptor evt) cache"
    and dk: "data_keys st = Some (get_keys ?s)"
    and rd: "raw_descriptors st (descriptor (hd cache)) = Some desc"
    and conf: "list_all (conforms desc) cache"
    and mon: "monitor ?s = Some m" and det: "detector ?s = Some d"
    and len: "length (pattern ?s) = length cache"
    and p: "p \<in> set (desc_data_keys desc)"
    by simp_all
  have s2: "?s2 = ?s\<lparr>positioner2 := Some p\<rparr>"
    and dk2: "data_keys ?st2 = Some (get_keys ?s2)"
    and rd2: "raw_descriptors ?st2 (descriptor (hd cache)) = Some desc"
    and mon2: "monitor ?s2 = Some m" and det2: "detector ?s2 = Some d"
    and len2: "length (pattern ?s2) = length cache"
    using rd mon det len by (simp_all add: with_positioner2_def)
  have keys: "list_all (\<lambda>key. key \<in> set (desc_data_keys desc)) (map snd (get_keys ?s2))
      = list_all (\<lambda>key. key \<in> set (desc_data_keys desc)) (map snd (get_keys ?s))"
    unfolding list_all_iff s2 get_keys_positioner2 [OF none] using p by auto
  show "\<exists>out1 st1 out2 st2.
             process_xmcd np st cache = (Inr out1, st1)
           \<and> process_xmcd np ?st2 cache = (Inr out2, st2)
           \<and> fst (snd (signals (dichro st1))) = nan np
           \<and> data out1 ''xas'' = data out2 ''xas''
           \<and> data out1 ''xmcd'' = data out2 ''xmcd''
           \<and> snd (snd (signals (dichro st1))) = snd (snd (signals (dichro st2)))"
  proof (cases "list_all (\<lambda>key. key \<in> set (desc_data_keys desc)) (map snd (get_keys ?s))")
    case True
    then have True2: "list_all (\<lambda>key. key \<in> set (desc_data_keys desc)) (map snd (get_keys ?s2))"
      using keys by simp
    have same_abs: "window_absorption np ?s2 cache = window_absorption np ?s cache"
      and same_pat: "pattern ?s2 = pattern ?s"
      by (simp_all add: s2 window_absorption_positioner2)
    show ?thesis
      using none
      by (simp add: process_xmcd_match [OF ne same dk rd True conf mon det len]
          process_xmcd_match [OF ne same dk2 rd2 True2 conf mon2 det2 len2]
          signals_put spec_tuple_parts spec_data_xas same_abs same_pat)
  next
    case False
    then have False2: "\<not> list_all (\<lambda>key. key \<in> set (desc_data_keys desc)) (map snd (get_keys ?s2))"
      using keys by simp
    show ?thesis
      using none
      by (simp add: process_xmcd_degraded [OF ne same dk rd False]
          process_xmcd_degraded [OF ne same dk2 rd2 False2]
          signals_put spec_tuple_parts spec_degraded_def)
  qed
qed


theorem C7_absent_positioner2_witness:
  "\<exists>out1 st1 out2 st2.
     process_xmcd symbolic armed window1 = (Inr out1, st1)
   \<and> process_xmcd symbolic (with_positioner2 armed ''energy'') window1 = (Inr out2, st2)
   \<and> fst (snd (signals (dichro st1))) = NaN
   \<and> data out1 ''xas'' = data out2 ''xas''
   \<and> data out1 ''xmcd'' = data out2 ''xmcd''
   \<and> snd (snd (signals (dichro st1))) = snd (snd (signals (dichro st2)))"
proof -
  have d: "descriptor (hd window1) = ''d1''"
    by (simp add: window1_simps reading_def)
  have "positioner2 (settings armed) = None
      \<and> window1 \<noteq> []
      \<and> list_all (\<lambda>evt. descriptor (hd window1) = descriptor evt) window1
      \<and> data_keys armed = Some (get_keys (settings armed))
      \<and> raw_descriptors armed (descriptor (hd window1)) = Some d1
      \<and> list_all (conforms d1) window1
      \<and> monitor (settings armed) = Some ''4idhI0'' \<and> detector (settings armed) = Some ''4idhI1''
      \<and> length (pattern (settings armed)) = length window1
      \<and> ''energy'' \<in> set (desc_data_keys d1)"
    by (simp add: armed_simps window1_simps Settings_def) (simp add: d1_def)
  with C7_absent_positioner2 [of armed symbolic window1 undefined undefined d1
      "''4idhI0''" "''4idhI1''" "''energy''"]
  show ?thesis
    by (simp add: symbolic_def)
qed

text \<open>
  The claim as stated compares with any configured \<open>positioner2\<close>.  The test of the
  channel map against the descriptor covers the positioner channels too, so with
  \<open>positioner2\<close> set to \<open>theta\<close>, which is no key of the descriptor, the same window takes
  the degraded branch: \<open>xas\<close> and \<open>xmcd\<close> are 0, while with \<open>positioner2\<close> unset
  they are the means of the absorptions.
\<close>

lemma theta_simps:
  "settings (with_positioner2 armed ''theta'') = Settings\<lparr>positioner2 := Some ''theta''\<rparr>"
  "data_keys (with_positioner2 armed ''theta'') =
     Some (get_keys (settings (with_positioner2 armed ''theta'')))"
  "raw_descriptors (with_positioner2 armed ''theta'') ''d1'' = Some d1"
  "dichro (with_positioner2 armed ''theta'') = dichro armed"
  by (simp_all add: with_positioner2_def armed_simps)

lemma process_xmcd_theta:
  "process_xmcd symbolic (with_positioner2 armed ''theta'') window1 =
     (Inr \<lparr>descriptor = ''d1'',
           data = spec_degraded symbolic (Settings\<lparr>positioner2 := Some ''theta''\<rparr>)\<rparr>,
      (with_positioner2 armed ''theta'')
        \<lparr>warnings := warnings (with_positioner2 armed ''theta'') @ [mismatch_warning],
         dichro := put (dichro armed) (Lit 0, Lit 0, Lit 0, Lit 0)\<rparr>)"
proof -
  let ?st = "with_positioner2 armed ''theta''"
  have same: "list_all (\<lambda>evt. descriptor (hd window1) = descriptor evt) window1"
    by (simp add: window1_def reading_def)
  have rd: "raw_descriptors ?st (descriptor (hd window1)) = Some d1"
    by (simp only: window1_simps theta_simps)
  have schema: "\<not> list_all (\<lambda>key. key \<in> set (desc_data_keys d1))
      (map snd (get_keys (settings ?st)))"
    by (simp add: theta_simps get_keys_def Settings_def d1_def)
  have t: "spec_tuple symbolic (Settings\<lparr>positioner2 := Some ''theta''\<rparr>)
      (spec_degraded symbolic (Settings\<lparr>positioner2 := Some ''theta''\<rparr>)) =
      (Lit 0, Lit 0, Lit 0, Lit 0)"
    by (simp add: spec_tuple_def spec_degraded_def Settings_def symbolic_def)
  from process_xmcd_degraded [OF window1_simps(1) same theta_simps(2) rd schema, of symbolic]
  show ?thesis
    by (simp add: theta_simps window1_simps t)
qed

lemma process_xmcd_window1:
  "process_xmcd symbolic armed window1 =
     (Inr \<lparr>descriptor = ''d1'', data = spec_data symbolic Settings window1\<rparr>,
      armed\<lparr>dichro := put (dichro armed)
        (spec_tuple symbolic Settings (spec_data symbolic Settings window1))\<rparr>)"
  using process_xmcd_match [of window1 armed d1 "''4idhI0''" "''4idhI1''" symbolic]
  by (simp add: armed_simps window1_simps) (simp add: Settings_def get_keys_def d1_def)

theorem C7_positioner2_outside_schema_counterexample:
  "positioner2 (settings armed) = None
   \<and> ''theta'' \<notin> set (desc_data_keys d1)
   \<and> signals (dichro (snd (process_xmcd symbolic armed window1))) =
       (Mean [Lit 7, Lit 7, Lit 7, Lit 7], NaN,
        Mean [Log (Divide (Lit 100) (Lit 50)), Log (Divide (Lit 100) (Lit 55)),
              Log (Divide (Lit 100) (Lit 55)), Log (Divide (Lit 100) (Lit 50))],
        Multiply
          (Mean [Multiply (Log (Divide (Lit 100) (Lit 50))) (Lit 1),
                 Multiply (Log (Divide (Lit 100) (Lit 55))) (Lit (- 1)),
                 Multiply (Log (Divide (Lit 100) (Lit 55))) (Lit (- 1)),
                 Multiply (Log (Divide (Lit 100) (Lit 50))) (Lit 1)])
          (Lit 2))
   \<and> signals (dichro (snd (process_xmcd symbolic (with_positioner2 armed ''theta'') window1))) =
       (Lit 0, Lit 0, Lit 0, Lit 0)
   \<and> fst (process_xmcd symbolic (with_positioner2 armed ''theta'') window1) =
       Inr \<lparr>descriptor = ''d1'',
            data = spec_degraded symbolic (Settings\<lparr>positioner2 := Some ''theta''\<rparr>)\<rparr>
   \<and> snd (snd (signals (dichro (snd (process_xmcd symbolic armed window1))))) \<noteq>
       snd (snd (signals (dichro (snd (process_xmcd symbolic
         (with_positioner2 armed ''theta'') window1)))))"
proof -
  have "positioner2 (settings armed) = None"
    by (simp add: armed_simps Settings_def)
  moreover have "''theta'' \<notin> set (desc_data_keys d1)"
    by (simp add: d1_def)
  ultimately show ?thesis
    by (simp add: process_xmcd_theta process_xmcd_window1 signals_put tuple_window1)
qed



subsection \<open>Windows of a run\<close>

text \<open>
  The windows of the specification: how many there are, how long each is, and that
  together with the trailing events they are the input, in its order.
\<close>

lemma chunks_short: "k = 0 \<or> length xs < k \<Longrightarrow> chunks k xs = []"
  by (subst chunks.simps) simp

lemma chunks_full: "length w = k \<Longrightarrow> 0 < k \<Longrightarrow> chunks k (w @ xs) = w # chunks k xs"
  by (subst chunks.simps) simp

lemma chunks_step:
  "0 < k \<Longrightarrow> k \<le> length xs \<Longrightarrow> chunks k xs = take k xs # chunks k (drop k xs)"
  by (subst chunks.simps) simp

lemma length_chunks: "length (chunks k xs) = length xs div k"
proof (induction k xs rule: chunks.induct)
  case (1 k xs)
  show ?case
  proof (cases "k = 0 \<or> length xs < k")
    case True
    then show ?thesis by (auto simp: chunks_short)
  next
    case False
    then have "length (chunks k (drop k xs)) = (length xs - k) div k"
      using "1" by simp
    moreover have "chunks k xs = take k xs # chunks k (drop k xs)"
      using False by (intro chunks_step) auto
    ultimately show ?thesis
      using False by (simp add: le_div_geq)
  qed
qed

lemma chunks_length_each: "list_all (\<lambda>w. length w = k) (chunks k xs)"
proof (induction k xs rule: chunks.induct)
  case (1 k xs)
  show ?case
  proof (cases "k = 0 \<or> length xs < k")
    case True
    then show ?thesis by (auto simp: chunks_short)
  next
    case False
    moreover have "chunks k xs = take k xs # chunks k (drop k xs)"
      using False by (intro chunks_step) auto
    ultimately show ?thesis
      using "1" by simp
  qed
qed

lemma concat_chunks: "concat (chunks k xs) @ trailing k xs = xs"
proof (induction k xs rule: chunks.induct)
  case (1 k xs)
  show ?case
  proof (cases "k = 0 \<or> length xs < k")
    case True
    then show ?thesis by (auto simp: chunks_short trailing_def)
  next
    case False
    then have k: "0 < k" "k \<le> length xs" by auto
    have "trailing k xs = trailing k (drop k xs)"
      using k by (simp add: trailing_def le_div_geq distrib_left add.commute)
    moreover have "chunks k xs = take k xs # chunks k (drop k xs)"
      using k by (intro chunks_step)
    ultimately show ?thesis
      using "1" False by simp
  qed
qed

lemma length_trailing: "length (trailing k xs) = length xs mod k"
proof -
  have "length xs - k * (length xs div k) = length xs mod k"
    by (simp add: minus_mult_div_eq_mod)
  then show ?thesis by (simp add: trailing_def)
qed

lemma concat_chunks_take: "concat (chunks k xs) = take (k * (length xs div k)) xs"
proof -
  have "length (concat (chunks k xs) @ trailing k xs) = length xs"
    by (simp only: concat_chunks)
  then have "length (concat (chunks k xs)) + length xs mod k = length xs"
    by (simp add: length_trailing)
  then have "length (concat (chunks k xs)) = k * (length xs div k)"
    using mult_div_mod_eq [of k "length xs"] by linarith
  then have "take (k * (length xs div k)) (concat (chunks k xs) @ trailing k xs)
      = concat (chunks k xs)"
    by simp
  then show ?thesis
    by (simp only: concat_chunks)
qed

lemma trailing_full:
  assumes "length w = k" and "0 < k"
  shows "trailing k (w @ xs) = trailing k xs"
proof -
  have "(k + length xs) div k = Suc (length xs div k)"
    using assms(2) div_add_self1 [of k "length xs"] by simp
  then show ?thesis
    using assms(1) by (simp add: trailing_def)
qed

lemma trailing_short: "k = 0 \<or> length xs < k \<Longrightarrow> trailing k xs = xs"
  by (auto simp: trailing_def)


text \<open>
  The partition node against the windows of the specification.  An event of the primary
  stream either fills the buffer, or completes a window, which is reduced with the buffer
  already empty.  Over a whole run the node hands on exactly the windows of the
  specification, in their order, and keeps the trailing events.
\<close>

lemma primary_cong: "raw_descriptors st1 = raw_descriptors st \<Longrightarrow> primary st1 = primary st"
  by (simp add: fun_eq_iff primary_def)

lemma reduce_cong:
  "settings st1 = settings st \<Longrightarrow> data_keys st1 = data_keys st \<Longrightarrow>
   raw_descriptors st1 = raw_descriptors st \<Longrightarrow> reduce np st1 = reduce np st"
  by (rule ext) (rule reduce_config)

lemma event_buffers:
  assumes "in_node st = Some node" and "primary st doc"
    and "length (buffer node @ [doc]) \<noteq> pn node"
  shows "event np st doc = (None, st\<lparr>in_node := Some (node\<lparr>buffer := buffer node @ [doc]\<rparr>)\<rparr>)"
  using assms
  by (auto simp: event_def emit_def primary_def Let_def split: option.splits)

lemma event_completes:
  assumes "in_node st = Some node" and "primary st doc"
    and "length (buffer node @ [doc]) = pn node"
    and "event np st doc = (r, st1)"
  shows "r = (case reduce np st (buffer node @ [doc]) of Inl e \<Rightarrow> Some e | Inr out \<Rightarrow> None)
       \<and> in_node st1 = Some (node\<lparr>buffer := []\<rparr>)
       \<and> emitted st1 =
           emitted st @ map Event_doc (returned [reduce np st (buffer node @ [doc])])
       \<and> settings st1 = settings st \<and> data_keys st1 = data_keys st
       \<and> raw_descriptors st1 = raw_descriptors st"
proof -
  let ?st0 = "st\<lparr>in_node := Some (node\<lparr>buffer := []\<rparr>)\<rparr>"
  let ?w = "buffer node @ [doc]"
  obtain x st0' where p: "process_xmcd np ?st0 ?w = (x, st0')"
    by (cases "process_xmcd np ?st0 ?w")
  have red: "reduce np st ?w = x"
    using p reduce_config [of ?st0 st np ?w] by (simp add: reduce_def)
  show ?thesis
  proof (cases x)
    case (Inl e)
    with assms p have "r = Some e" "st1 = st0'"
      by (auto simp: event_def emit_def primary_def Let_def split: option.splits)
    with process_xmcd_raises [OF p [unfolded Inl]] red Inl show ?thesis
      by simp
  next
    case (Inr out)
    with assms p have "r = None" "st1 = process_event st0' out"
      by (auto simp: event_def emit_def primary_def Let_def split: option.splits)
    with process_xmcd_returns [OF p [unfolded Inr]] red Inr show ?thesis
      by (simp add: process_event_def)
  qed
qed

lemma returned_Cons: "returned (x # xs) = returned [x] @ returned xs"
  by (cases x) simp_all

lemma raised_Cons:
  "raised (x # xs) = (case x of Inl e \<Rightarrow> [e] | Inr out \<Rightarrow> []) @ raised xs"
  by (cases x) simp_all

lemma run_events_windows:
  assumes "in_node st = Some node"
    and "pn node = 0 \<or> length (buffer node) < pn node"
    and "list_all (primary st) docs"
    and "run_events np st docs = (rs, st')"
  shows "in_node st' = Some (node\<lparr>buffer := trailing (pn node) (buffer node @ docs)\<rparr>)
       \<and> emitted st' = emitted st @
            map Event_doc (returned (map (reduce np st) (chunks (pn node) (buffer node @ docs))))
       \<and> List.map_filter id rs =
            raised (map (reduce np st) (chunks (pn node) (buffer node @ docs)))
       \<and> length rs = length docs"
  using assms
proof (induction docs arbitrary: st node rs st')
  case Nil
  then show ?case
    by (auto simp: trailing_short chunks_short)
next
  case (Cons doc docs)
  obtain r st1 where ev: "event np st doc = (r, st1)"
    by (cases "event np st doc")
  obtain rs1 st2 where run: "run_events np st1 docs = (rs1, st2)"
    by (cases "run_events np st1 docs")
  from Cons.prems(4) ev run have rs: "rs = r # rs1" and st': "st' = st2"
    by simp_all
  from Cons.prems(3) have prim: "primary st doc" and prims: "list_all (primary st) docs"
    by simp_all
  let ?w = "buffer node @ [doc]"
  show ?case
  proof (cases "length ?w = pn node")
    case True
    then have pos: "0 < pn node" by auto
    note c = event_completes [OF Cons.prems(1) prim True ev]
    let ?node1 = "node\<lparr>buffer := []\<rparr>"
    have n1: "in_node st1 = Some ?node1" and inv1: "pn ?node1 = 0 \<or> length (buffer ?node1) < pn ?node1"
      using c pos by simp_all
    have prims1: "list_all (primary st1) docs"
      using prims c primary_cong [of st1 st] by simp
    have red1: "reduce np st1 = reduce np st"
      using c by (intro reduce_cong) simp_all
    have ch: "chunks (pn node) (buffer node @ doc # docs) = ?w # chunks (pn node) docs"
      using chunks_full [OF True pos, of docs] by simp
    have tr: "trailing (pn node) (buffer node @ doc # docs) = trailing (pn node) docs"
      using trailing_full [OF True pos, of docs] by simp
    from Cons.IH [OF n1 inv1 prims1 run] c
    show ?thesis
      unfolding rs st' ch tr red1
      by (cases "reduce np st ?w")
         (simp_all add: map_filter_simps returned_Cons [of _ "map (reduce np st) (chunks (pn node) docs)"])
  next
    case False
    note b = event_buffers [OF Cons.prems(1) prim False, of np]
    let ?node1 = "node\<lparr>buffer := ?w\<rparr>"
    from ev b have r: "r = None" and st1: "st1 = st\<lparr>in_node := Some ?node1\<rparr>"
      by simp_all
    have n1: "in_node st1 = Some ?node1" and inv1: "pn ?node1 = 0 \<or> length (buffer ?node1) < pn ?node1"
      using Cons.prems(2) False by (auto simp: st1)
    have prims1: "list_all (primary st1) docs"
      using prims primary_cong [of st1 st] by (simp add: st1)
    have red1: "reduce np st1 = reduce np st"
      by (intro reduce_cong) (simp_all add: st1)
    from Cons.IH [OF n1 inv1 prims1 run]
    show ?thesis
      unfolding rs st' red1 r
      by (simp add: st1 map_filter_simps)
  qed
qed

lemma derived_events_append:
  "derived_events (xs @ ys) = derived_events xs @ derived_events ys"
  by (induction xs rule: derived_events.induct) simp_all

lemma derived_events_map: "derived_events (map Event_doc xs) = xs"
  by (induction xs) simp_all

lemma length_returned_raised: "length (returned xs) + length (raised xs) = length xs"
  by (induction xs rule: returned.induct) simp_all

lemma map_filter_all_None: "list_all (\<lambda>r. r = None) rs \<Longrightarrow> List.map_filter id rs = []"
  by (induction rs) (simp_all add: map_filter_simps)

lemma stop_drops_buffer:
  "in_node (stop st) = None \<and> dichro (stop st) = dichro st
   \<and> derived_events (emitted (stop st)) = derived_events (emitted st)"
  by (simp add: stop_def base_stop_def derived_events_append)

lemma mixed_simps:
  "list_all (primary armed) mixed" "length mixed = 4"
  "reading ''d1'' 7 100 50 \<in> set mixed" "reading ''d2'' 7 100 55 \<in> set mixed"
  "descriptor (reading ''d1'' 7 100 50) \<noteq> descriptor (reading ''d2'' 7 100 55)"
  by (simp_all add: mixed_def primary_def reading_def armed_simps d1_def d2_def)

lemma chunks_one: "length w = k \<Longrightarrow> 0 < k \<Longrightarrow> chunks k w = [w]"
  using chunks_full [of w k "[]"] by (simp add: chunks_short)

text \<open>
  Claim C2, as amended.  Take a run that has just started, with window size
  \<open>N = len(pattern)\<close> and an empty buffer, and deliver \<open>k\<close> events of the primary
  stream.  The stream forms exactly \<open>k div N\<close> windows, the contiguous groups of \<open>N\<close>
  events that do not overlap, in the order of arrival, and reduces each of them once.  A
  window whose reduction returns gives one derived event, in the order of the windows; a
  window whose reduction raises gives the exception to the caller of \<^verbatim>\<open>event\<close> and no
  derived event.  So when no call raises there are exactly \<open>k div N\<close> derived events.
  The trailing \<open>k mod N\<close> events stay in the buffer and \<^verbatim>\<open>stop\<close> drops them: it emits
  no derived event and puts nothing on the device.  (For \<open>N = 0\<close> no window is ever
  formed: \<open>k div 0 = 0\<close> and \<open>k mod 0 = k\<close>.)
\<close>

theorem C2_windows_of_a_run:
  assumes "N = length (pattern (settings st))"
    and "in_node st = Some \<lparr>pn = N, buffer = []\<rparr>"
    and "list_all (primary st) docs"
    and "run_events np st docs = (rs, st')"
  shows "length (chunks N docs) = length docs div N
       \<and> list_all (\<lambda>w. length w = N) (chunks N docs)
       \<and> concat (chunks N docs) = take (N * (length docs div N)) docs
       \<and> derived_events (emitted st') =
           derived_events (emitted st) @ returned (map (reduce np st) (chunks N docs))
       \<and> List.map_filter id rs = raised (map (reduce np st) (chunks N docs))
       \<and> (list_all (\<lambda>r. r = None) rs \<longrightarrow>
            length (derived_events (emitted st')) =
              length (derived_events (emitted st)) + length docs div N)
       \<and> in_node st' = Some \<lparr>pn = N, buffer = trailing N docs\<rparr>
       \<and> length (trailing N docs) = length docs mod N
       \<and> derived_events (emitted (stop st')) = derived_events (emitted st')
       \<and> in_node (stop st') = None
       \<and> dichro (stop st') = dichro st'"
proof -
  let ?outcomes = "map (reduce np st) (chunks N docs)"
  have inv: "pn \<lparr>pn = N, buffer = []\<rparr> = 0
      \<or> length (buffer \<lparr>pn = N, buffer = []\<rparr>) < pn \<lparr>pn = N, buffer = []\<rparr>"
    by auto
  from run_events_windows [OF assms(2) inv assms(3,4)]
  have node: "in_node st' = Some \<lparr>pn = N, buffer = trailing N docs\<rparr>"
    and em: "emitted st' = emitted st @ map Event_doc (returned ?outcomes)"
    and errs: "List.map_filter id rs = raised ?outcomes"
    by simp_all
  have der: "derived_events (emitted st') = derived_events (emitted st) @ returned ?outcomes"
    by (simp add: em derived_events_append derived_events_map)
  have count: "length (derived_events (emitted st')) =
      length (derived_events (emitted st)) + length docs div N"
    if "list_all (\<lambda>r. r = None) rs"
  proof -
    have "raised ?outcomes = []"
      using map_filter_all_None [OF that] errs by simp
    then have "length (returned ?outcomes) = length ?outcomes"
      using length_returned_raised [of ?outcomes] by simp
    then show ?thesis
      by (simp add: der length_chunks)
  qed
  show ?thesis
    using node der errs count stop_drops_buffer [of st']
    by (simp add: length_chunks chunks_length_each concat_chunks_take length_trailing)
qed

theorem C2_windows_of_a_run_witness:
  "list_all (primary armed) five
   \<and> length five div 4 = 1
   \<and> derived_events (emitted (snd (run_events symbolic armed five))) =
       [\<lparr>descriptor = ''d1'', data = spec_data symbolic Settings window1\<rparr>]
   \<and> in_node (snd (run_events symbolic armed five)) =
       Some \<lparr>pn = 4, buffer = [reading ''d1'' 8 100 52]\<rparr>
   \<and> in_node (stop (snd (run_events symbolic armed five))) = None
   \<and> derived_events (emitted (stop (snd (run_events symbolic armed five)))) =
       [\<lparr>descriptor = ''d1'', data = spec_data symbolic Settings window1\<rparr>]"
proof -
  have n: "4 = length (pattern (settings armed))"
    by (simp add: armed_simps Settings_def)
  have prim: "list_all (primary armed) five"
    by (simp add: five_def window1_def primary_def reading_def armed_simps d1_def)
  have run: "run_events symbolic armed five =
      (fst (run_events symbolic armed five), snd (run_events symbolic armed five))"
    by simp
  have ch: "chunks 4 five = [window1]"
    using chunks_full [of window1 4 "[reading ''d1'' 8 100 52]"]
    by (simp add: five_def window1_simps chunks_short)
  have tr: "trailing 4 five = [reading ''d1'' 8 100 52]"
    using trailing_full [of window1 4 "[reading ''d1'' 8 100 52]"]
    by (simp add: five_def window1_simps trailing_short)
  have len: "length five = 5"
    by (simp add: five_def window1_simps)
  from C2_windows_of_a_run [OF n armed_simps(6) prim run]
  show ?thesis
    by (simp add: prim ch tr len reduce_window1 armed_simps)
qed

text \<open>
  The claim as stated promises \<open>k div N\<close> derived events for every sequence of primary
  events.  Four primary events of which one has another descriptor are one window
  (\<open>4 div 4 = 1\<close>), but its reduction raises and no derived event is emitted.
\<close>

theorem C2_mixed_window_counterexample:
  "list_all (primary armed) mixed
   \<and> in_node armed = Some \<lparr>pn = length (pattern (settings armed)), buffer = []\<rparr>
   \<and> length mixed div length (pattern (settings armed)) = 1
   \<and> derived_events (emitted (snd (run_events symbolic armed mixed))) = []"
proof -
  obtain rs st' where run: "run_events symbolic armed mixed = (rs, st')"
    by (cases "run_events symbolic armed mixed")
  have inv: "pn \<lparr>pn = 4, buffer = []\<rparr> = 0
      \<or> length (buffer \<lparr>pn = 4, buffer = []\<rparr>) < pn \<lparr>pn = 4, buffer = []\<rparr>"
    by simp
  have red: "reduce symbolic armed mixed =
      Inl (Exception ''The events in this bundle are from differentconfigurations!'')"
    using process_xmcd_mixed [OF mixed_simps(3-5), of symbolic armed] by (simp add: reduce_def)
  have ch: "chunks 4 mixed = [mixed]"
    by (rule chunks_one) (simp_all add: mixed_simps)
  from run_events_windows [OF armed_simps(6) inv mixed_simps(1) run]
  have "emitted st' = emitted armed"
    by (simp add: ch red)
  then show ?thesis
    by (simp add: run mixed_simps armed_simps Settings_def)
qed

end
